theory Spec2Isabelle
  imports
    Main
    "HOL-Library.Word"
    "HOL-Library.Char_ord"
    "HOL-Library.List_Lexorder"
    "HOL-Library.Finite_Map"
begin

section \<open>The producer service of async-component\<close>

text \<open>
  The program is \<^verbatim>\<open>cmd/producer/main.go\<close>: an HTTP handler that reads a
  request body under a size limit, wraps the request in a \<^verbatim>\<open>requestData\<close>
  envelope, serialises it as JSON and appends it to a Redis stream.

  Go strings and byte slices are byte sequences: they are \<^typ>\<open>string\<close> here
  (a \<^typ>\<open>char\<close> is one byte). The functions of this file's own source keep their
  names (\<^verbatim>\<open>handleRequest\<close>, \<^verbatim>\<open>setUpRedis\<close>, \<^verbatim>\<open>main\<close>; the method
  \<^verbatim>\<open>write\<close> is \<^verbatim>\<open>myRedis_write\<close>). What the source calls in Go's standard
  library is modelled after the library's code and named after it
  (\<^verbatim>\<open>MaxBytesReader\<close>, \<^verbatim>\<open>ReadAll\<close>, \<^verbatim>\<open>json_Marshal\<close>, ...); what it calls in
  third-party packages whose code decides no definition here (the UUID generator, the
  PEM and URL parsers) is a parameter.
\<close>

subsection \<open>Errors\<close>

text \<open>
  A Go \<^verbatim>\<open>error\<close> is compared by identity (\<^verbatim>\<open>err == io.EOF\<close>) or read through
  its message (\<^verbatim>\<open>err.Error()\<close>). \<open>io_EOF\<close> is the sentinel; every other error is
  its message.
\<close>

datatype error = io_EOF | errorString string

fun Error :: "error \<Rightarrow> string" where
  "Error io_EOF = ''EOF''"
| "Error (errorString m) = m"

subsection \<open>Configuration and envelope (the structs of the source)\<close>

record envInfo =
  StreamName :: string
  RedisAddress :: string
  RequestSizeLimit :: "64 word"
  TlsCert :: string

type_synonym header = "(string, string list) fmap"

record requestData =
  ID :: string
  ReqURL :: string
  ReqBody :: string
  ReqHeader :: header
  ReqMethod :: string

subsection \<open>The request body and \<^verbatim>\<open>http.MaxBytesReader\<close>\<close>

text \<open>
  The body of a request is a stream: \<open>pending\<close> are the bytes still to be delivered,
  \<open>fault\<close> is how the stream ends after them (\<open>None\<close>: a clean end of file;
  \<open>Some m\<close>: a transport error with message \<open>m\<close>). \<open>body_Read k\<close> is one call of
  \<^verbatim>\<open>Read(p)\<close> with \<^verbatim>\<open>len(p) = k\<close>.
\<close>

record body =
  pending :: string
  fault :: "string option"

definition body_Read :: "nat \<Rightarrow> body \<Rightarrow> (string \<times> error option) \<times> body" where
  "body_Read k b =
     (if k = 0 then (([], None), b)
      else if pending b = [] then
        (([], Some (case fault b of None \<Rightarrow> io_EOF | Some m \<Rightarrow> errorString m)), b)
      else ((take k (pending b), None), b\<lparr>pending := drop k (pending b)\<rparr>))"

text \<open>
  The response writer: the status code of the first \<^verbatim>\<open>WriteHeader\<close>, the bytes
  written to the response body, and the flag that \<^verbatim>\<open>requestTooLarge()\<close> sets.
\<close>

record ResponseWriter =
  status :: "nat option"
  written :: string
  closeAfterReply :: bool

definition WriteHeader :: "nat \<Rightarrow> ResponseWriter \<Rightarrow> ResponseWriter" where
  "WriteHeader code w = (if status w = None then w\<lparr>status := Some code\<rparr> else w)"

definition requestTooLarge :: "ResponseWriter \<Rightarrow> ResponseWriter" where
  "requestTooLarge w = w\<lparr>closeAfterReply := True\<rparr>"

definition StatusAccepted :: nat where "StatusAccepted = 202"
definition StatusInternalServerError :: nat where "StatusInternalServerError = 500"

text \<open>
  \<^verbatim>\<open>maxBytesReader{w, r, n, err}\<close> of net/http. \<^verbatim>\<open>MaxBytesReader\<close> treats a
  negative limit as 0. \<^verbatim>\<open>Read\<close>: a sticky error is returned again; the buffer is cut
  to \<^verbatim>\<open>n+1\<close> bytes; a read of at most \<^verbatim>\<open>n\<close> bytes is passed on and counted; a
  read beyond marks the response and fails with \<^verbatim>\<open>http: request body too large\<close>.
\<close>

record maxBytesReader =
  mbr_w :: ResponseWriter
  mbr_r :: body
  mbr_n :: int
  mbr_err :: "error option"

definition MaxBytesReader :: "ResponseWriter \<Rightarrow> body \<Rightarrow> int \<Rightarrow> maxBytesReader" where
  "MaxBytesReader w r n =
     \<lparr>mbr_w = w, mbr_r = r, mbr_n = (if n < 0 then 0 else n), mbr_err = None\<rparr>"

definition mbr_Read :: "nat \<Rightarrow> maxBytesReader \<Rightarrow> (string \<times> error option) \<times> maxBytesReader" where
  "mbr_Read k l =
     (case mbr_err l of
        Some e \<Rightarrow> (([], Some e), l)
      | None \<Rightarrow>
          if k = 0 then (([], None), l)
          else
            let k' = (if int k - 1 > mbr_n l then nat (mbr_n l + 1) else k);
                ((p, e), r') = body_Read k' (mbr_r l)
            in if int (length p) \<le> mbr_n l then
                 ((p, e), l\<lparr>mbr_r := r', mbr_n := mbr_n l - int (length p), mbr_err := e\<rparr>)
               else
                 let e' = errorString ''http: request body too large''
                 in ((take (nat (mbr_n l)) p, Some e'),
                     l\<lparr>mbr_w := requestTooLarge (mbr_w l), mbr_r := r', mbr_n := 0,
                       mbr_err := Some e'\<rparr>))"

text \<open>
  \<^verbatim>\<open>ioutil.ReadAll\<close>: read into the free part of a buffer until a read returns an
  error; end of file is success. Every read is offered \<open>Suc c\<close> bytes of buffer
  (\<^verbatim>\<open>bytes.MinRead = 512\<close> in the library).
\<close>

lemma body_Read_progress:
  assumes "body_Read k b = ((q, None), b')" and "0 < k"
  shows "length (pending b') < length (pending b)"
proof -
  from assms have "pending b \<noteq> []"
    by (auto simp: body_Read_def split: if_splits)
  moreover from assms this have "b' = b\<lparr>pending := drop k (pending b)\<rparr>"
    by (auto simp: body_Read_def split: if_splits)
  ultimately show ?thesis using \<open>0 < k\<close> by simp
qed

lemma mbr_Read_progress:
  assumes "mbr_Read (Suc c) l = ((p, None), l')"
  shows "length (pending (mbr_r l')) < length (pending (mbr_r l))"
proof (cases "mbr_err l")
  case (Some e)
  with assms show ?thesis by (simp add: mbr_Read_def)
next
  case None
  define k' where "k' = (if int (Suc c) - 1 > mbr_n l then nat (mbr_n l + 1) else Suc c)"
  obtain q e r' where br: "body_Read k' (mbr_r l) = ((q, e), r')"
    by (metis prod.exhaust)
  show ?thesis
  proof (cases "int (length q) \<le> mbr_n l")
    case False
    with assms None br show ?thesis
      by (simp add: mbr_Read_def Let_def k'_def)
  next
    case True
    with assms None br have eq: "e = None" "mbr_r l' = r'"
      by (auto simp: mbr_Read_def Let_def k'_def)
    have "0 \<le> mbr_n l" using True by linarith
    then have "0 < k'" by (simp add: k'_def)
    with br eq show ?thesis
      using body_Read_progress [of k' "mbr_r l" q r'] by simp
  qed
qed

function ReadAll_from :: "nat \<Rightarrow> maxBytesReader \<Rightarrow> string \<Rightarrow> (string \<times> error option) \<times> maxBytesReader" where
  "ReadAll_from c l b =
     (case mbr_Read (Suc c) l of
        ((p, Some e), l') \<Rightarrow> ((b @ p, if e = io_EOF then None else Some e), l')
      | ((p, None), l') \<Rightarrow> ReadAll_from c l' (b @ p))"
  by pat_completeness auto
termination
  by (relation "measure (\<lambda>(c, l, b). length (pending (mbr_r l)))")
     (auto dest: mbr_Read_progress [OF sym])

declare ReadAll_from.simps [simp del]

definition MinRead :: nat where "MinRead = 512"

definition ReadAll :: "maxBytesReader \<Rightarrow> (string \<times> error option) \<times> maxBytesReader" where
  "ReadAll l = ReadAll_from (MinRead - 1) l []"

subsection \<open>UTF-8 (\<^verbatim>\<open>unicode/utf8\<close>)\<close>

text \<open>
  Runes are natural numbers. \<open>first\<close> is the library's table of the same name: for a
  leading byte, \<open>0xF0\<close> marks ASCII, \<open>0xF1\<close> an invalid byte; otherwise the low three
  bits are the length of the sequence and the high four bits index \<open>acceptRanges\<close>,
  the range allowed for the second byte.
\<close>

definition RuneError :: nat where "RuneError = 0xFFFD"
definition RuneSelf :: nat where "RuneSelf = 0x80"

definition first :: "nat \<Rightarrow> nat" where
  "first b =
     (if b < 0x80 then 0xF0
      else if b < 0xC2 then 0xF1
      else if b < 0xE0 then 0x02
      else if b = 0xE0 then 0x13
      else if b < 0xED then 0x03
      else if b = 0xED then 0x23
      else if b < 0xF0 then 0x03
      else if b = 0xF0 then 0x34
      else if b < 0xF4 then 0x04
      else if b = 0xF4 then 0x44
      else 0xF1)"

definition acceptRanges :: "nat \<Rightarrow> nat \<times> nat" where
  "acceptRanges i =
     (if i = 1 then (0xA0, 0xBF)
      else if i = 2 then (0x80, 0x9F)
      else if i = 3 then (0x90, 0xBF)
      else if i = 4 then (0x80, 0x8F)
      else (0x80, 0xBF))"

definition DecodeRuneInString :: "string \<Rightarrow> nat \<times> nat" where
  "DecodeRuneInString s =
     (let n = length s in
      if n < 1 then (RuneError, 0)
      else
        let s0 = of_char (s ! 0); x = first s0 in
        if x \<ge> 0xF0 then ((if x = 0xF0 then s0 else RuneError), 1)
        else
          let sz = x mod 8; (lo, hi) = acceptRanges (x div 16) in
          if n < sz then (RuneError, 1)
          else
            let s1 = of_char (s ! 1) in
            if s1 < lo \<or> hi < s1 then (RuneError, 1)
            else if sz \<le> 2 then ((s0 mod 32) * 64 + s1 mod 64, 2)
            else
              let s2 = of_char (s ! 2) in
              if s2 < 0x80 \<or> 0xBF < s2 then (RuneError, 1)
              else if sz \<le> 3 then ((s0 mod 16) * 4096 + (s1 mod 64) * 64 + s2 mod 64, 3)
              else
                let s3 = of_char (s ! 3) in
                if s3 < 0x80 \<or> 0xBF < s3 then (RuneError, 1)
                else ((s0 mod 8) * 262144 + (s1 mod 64) * 4096 + (s2 mod 64) * 64 + s3 mod 64, 4))"

subsection \<open>\<^verbatim>\<open>json.Marshal\<close> of a \<^verbatim>\<open>requestData\<close>\<close>

text \<open>
  \<open>htmlSafeSet\<close>: the ASCII bytes that a JSON string holds unescaped (Marshal escapes
  HTML): every byte from space to DEL but the quote, the backslash and \<open>&\<close>, \<open><\<close>, \<open>>\<close>.
\<close>

definition hex :: string where "hex = ''0123456789abcdef''"

definition htmlSafeSet :: "char \<Rightarrow> bool" where
  "htmlSafeSet b =
     (0x20 \<le> (of_char b :: nat) \<and> (of_char b :: nat) < 0x80 \<and>
      b \<noteq> CHR 0x22 \<and> b \<noteq> CHR ''&'' \<and> b \<noteq> CHR ''<'' \<and> b \<noteq> CHR ''>'' \<and> b \<noteq> CHR 0x5C)"

definition escape_byte :: "char \<Rightarrow> string" where
  "escape_byte b =
     CHR 0x5C #
     (if b = CHR 0x5C \<or> b = CHR 0x22 then [b]
      else if b = CHR 0x0A then ''n''
      else if b = CHR 0x0D then ''r''
      else if b = CHR 0x09 then ''t''
      else ''u00'' @ [hex ! (of_char b div 16), hex ! (of_char b mod 16)])"

text \<open>
  The loop of \<^verbatim>\<open>encodeState.string\<close> from index \<open>i\<close> on, over the rest \<open>s[i:]\<close>:
  safe ASCII is copied, other ASCII is escaped, a byte that starts no valid UTF-8
  sequence becomes the six characters of \<^verbatim>\<open>backslash ufffd\<close>, U+2028 and U+2029 are escaped, and
  every other rune is copied.
\<close>

fun encode_runes :: "string \<Rightarrow> string" where
  "encode_runes [] = []"
| "encode_runes (b # s) =
     (if (of_char b :: nat) < RuneSelf then
        (if htmlSafeSet b then [b] else escape_byte b) @ encode_runes s
      else
        (case DecodeRuneInString (b # s) of (c, wid) \<Rightarrow>
           if c = RuneError \<and> wid = 1 then (CHR 0x5C # ''ufffd'') @ encode_runes s
           else if c = 0x2028 \<or> c = 0x2029 then
             (CHR 0x5C # ''u202'') @ [hex ! (c mod 16)] @ encode_runes (drop (wid - 1) s)
           else (b # take (wid - 1) s) @ encode_runes (drop (wid - 1) s)))"

definition encode_string :: "string \<Rightarrow> string" where
  "encode_string s = [CHR 0x22] @ encode_runes s @ [CHR 0x22]"

fun join_comma :: "string list \<Rightarrow> string" where
  "join_comma [] = []"
| "join_comma [x] = x"
| "join_comma (x # y # ys) = x @ '','' @ join_comma (y # ys)"

definition encode_slice :: "string list \<Rightarrow> string" where
  "encode_slice vs = ''['' @ join_comma (map encode_string vs) @ '']''"

text \<open>A map is written with its keys in increasing (bytewise) order.\<close>

definition encode_map :: "header \<Rightarrow> string" where
  "encode_map h =
     ''{'' @ join_comma (map (\<lambda>(k, vs). encode_string k @ '':'' @ encode_slice vs)
                             (sorted_list_of_fmap h)) @ ''}''"

definition json_Marshal :: "requestData \<Rightarrow> string \<times> error option" where
  "json_Marshal v =
     (''{'' @ encode_string ''id'' @ '':'' @ encode_string (ID v) @ '','' @
      encode_string ''url'' @ '':'' @ encode_string (ReqURL v) @ '','' @
      encode_string ''body'' @ '':'' @ encode_string (ReqBody v) @ '','' @
      encode_string ''header'' @ '':'' @ encode_map (ReqHeader v) @ '','' @
      encode_string ''method'' @ '':'' @ encode_string (ReqMethod v) @ ''}'', None)"

subsection \<open>\<^verbatim>\<open>json.Unmarshal\<close> into a \<^verbatim>\<open>requestData\<close>\<close>

text \<open>
  The source only serialises; the reader of the stream deserialises. The decoder below
  follows \<^verbatim>\<open>encoding/json\<close> on the compact text that \<^verbatim>\<open>Marshal\<close> writes: a string
  literal is unquoted as \<^verbatim>\<open>unquote\<close> does (escapes, surrogate pairs, ill-formed UTF-8
  coerced to U+FFFD), a slice is a bracketed list of strings, a map and the struct are
  lists of members, a repeated key overwriting the earlier one. White space, \<^verbatim>\<open>null\<close>,
  unknown keys and keys that match a field only up to case are outside the model: the
  decoder answers \<open>None\<close> there, as it does where Go reports a syntax error.

  \<open>EncodeRune\<close> is \<^verbatim>\<open>utf8.EncodeRune\<close>; \<open>getu4\<close> reads the four hex digits of a
  \<^verbatim>\<open>\u\<close> escape; \<open>utf16_DecodeRune\<close> joins a surrogate pair (the second argument is
  \<open>None\<close> when no second escape follows).
\<close>

definition EncodeRune :: "nat \<Rightarrow> string" where
  "EncodeRune r =
     (if r \<le> 0x7F then [char_of r]
      else if r \<le> 0x7FF then [char_of (0xC0 + r div 64), char_of (0x80 + r mod 64)]
      else
        let r' = (if r > 0x10FFFF \<or> (0xD800 \<le> r \<and> r \<le> 0xDFFF) then RuneError else r) in
        if r' \<le> 0xFFFF then
          [char_of (0xE0 + r' div 4096), char_of (0x80 + (r' div 64) mod 64),
           char_of (0x80 + r' mod 64)]
        else
          [char_of (0xF0 + r' div 262144), char_of (0x80 + (r' div 4096) mod 64),
           char_of (0x80 + (r' div 64) mod 64), char_of (0x80 + r' mod 64)])"

definition hexval :: "char \<Rightarrow> nat option" where
  "hexval c =
     (let n = (of_char c :: nat) in
      if 0x30 \<le> n \<and> n \<le> 0x39 then Some (n - 0x30)
      else if 0x61 \<le> n \<and> n \<le> 0x66 then Some (n - 0x61 + 10)
      else if 0x41 \<le> n \<and> n \<le> 0x46 then Some (n - 0x41 + 10)
      else None)"

fun getu4 :: "string \<Rightarrow> nat option" where
  "getu4 (b # u # h1 # h2 # h3 # h4 # s) =
     (if b \<noteq> CHR 0x5C \<or> u \<noteq> CHR ''u'' then None
      else case (hexval h1, hexval h2, hexval h3, hexval h4) of
             (Some d1, Some d2, Some d3, Some d4) \<Rightarrow> Some (((d1 * 16 + d2) * 16 + d3) * 16 + d4)
           | _ \<Rightarrow> None)"
| "getu4 s = None"

definition IsSurrogate :: "nat \<Rightarrow> bool" where
  "IsSurrogate r = (0xD800 \<le> r \<and> r < 0xE000)"

definition utf16_DecodeRune :: "nat \<Rightarrow> nat option \<Rightarrow> nat" where
  "utf16_DecodeRune r1 r2 =
     (case r2 of
        None \<Rightarrow> RuneError
      | Some r2 \<Rightarrow>
          if 0xD800 \<le> r1 \<and> r1 < 0xDC00 \<and> 0xDC00 \<le> r2 \<and> r2 < 0xE000
          then (r1 - 0xD800) * 1024 + (r2 - 0xDC00) + 0x10000
          else RuneError)"

text \<open>
  One item of a string literal that does not start with the closing quote: an escape, an
  ASCII byte, or a rune (an invalid byte is replaced by U+FFFD). The result is the bytes
  written and the rest of the input.
\<close>

definition unquote_step :: "char \<Rightarrow> string \<Rightarrow> (string \<times> string) option" where
  "unquote_step c s =
     (if c = CHR 0x5C then
        (case s of
           [] \<Rightarrow> None
         | e # s' \<Rightarrow>
             if e = CHR 0x22 \<or> e = CHR 0x5C \<or> e = CHR ''/'' then Some ([e], s')
             else if e = CHR ''b'' then Some ([CHR 0x08], s')
             else if e = CHR ''f'' then Some ([CHR 0x0C], s')
             else if e = CHR ''n'' then Some ([CHR 0x0A], s')
             else if e = CHR ''r'' then Some ([CHR 0x0D], s')
             else if e = CHR ''t'' then Some ([CHR 0x09], s')
             else if e = CHR ''u'' then
               (case getu4 (c # s) of
                  None \<Rightarrow> None
                | Some rr \<Rightarrow>
                    if IsSurrogate rr then
                      (let dec = utf16_DecodeRune rr (getu4 (drop 5 s)) in
                       if dec \<noteq> RuneError then Some (EncodeRune dec, drop 11 s)
                       else Some (EncodeRune RuneError, drop 5 s))
                    else Some (EncodeRune rr, drop 5 s))
             else None)
      else if (of_char c :: nat) < 0x20 then None
      else if (of_char c :: nat) < RuneSelf then Some ([c], s)
      else
        (case DecodeRuneInString (c # s) of
           (rr, wid) \<Rightarrow> Some (EncodeRune rr, drop (wid - 1) s)))"

text \<open>
  The literal is unquoted item by item up to its closing quote; the result is the string
  and the input after the quote. Each item consumes input, which is why the loops of the
  decoder terminate.
\<close>

lemma unquote_step_shorter:
  "unquote_step c s = Some (p, r) \<Longrightarrow> length r \<le> length s"
  by (auto simp: unquote_step_def Let_def split: if_splits list.splits option.splits prod.splits)

function unquote_from :: "string \<Rightarrow> (string \<times> string) option" where
  "unquote_from [] = None"
| "unquote_from (c # s) =
     (if c = CHR 0x22 then Some ([], s)
      else
        (case unquote_step c s of
           None \<Rightarrow> None
         | Some (p, r) \<Rightarrow> map_option (\<lambda>(t, rest). (p @ t, rest)) (unquote_from r)))"
  by pat_completeness auto
termination
  by (relation "measure length") (auto dest!: unquote_step_shorter)

definition decode_string :: "string \<Rightarrow> (string \<times> string) option" where
  "decode_string s =
     (case s of
        [] \<Rightarrow> None
      | c # s' \<Rightarrow> if c = CHR 0x22 then unquote_from s' else None)"

lemma unquote_from_shorter:
  "unquote_from s = Some (t, r) \<Longrightarrow> length r < length s"
proof (induction s arbitrary: t rule: unquote_from.induct)
  case 1
  then show ?case by simp
next
  case (2 c s)
  show ?case
  proof (cases "c = CHR 0x22")
    case True
    with "2.prems" show ?thesis by simp
  next
    case False
    with "2.prems" obtain p r' t' where st: "unquote_step c s = Some (p, r')"
      and rec: "unquote_from r' = Some (t', r)"
      by (auto split: option.splits)
    from "2.IH" [OF False st refl rec] unquote_step_shorter [OF st]
    show ?thesis by simp
  qed
qed

lemma decode_string_shorter:
  "decode_string s = Some (t, r) \<Longrightarrow> length r < length s"
  by (cases s) (auto simp: decode_string_def dest: unquote_from_shorter split: if_splits)

text \<open>A slice of strings: \<open>decode_elems\<close> reads the elements after the bracket.\<close>

function decode_elems :: "string \<Rightarrow> (string list \<times> string) option" where
  "decode_elems s =
     (case decode_string s of
        None \<Rightarrow> None
      | Some (v, r) \<Rightarrow>
          (case r of
             [] \<Rightarrow> None
           | c # r' \<Rightarrow>
               if c = CHR '','' then map_option (\<lambda>(vs, rest). (v # vs, rest)) (decode_elems r')
               else if c = CHR '']'' then Some ([v], r')
               else None))"
  by pat_completeness auto
termination
  by (relation "measure length") (auto dest!: decode_string_shorter)

declare decode_elems.simps [simp del]

definition decode_slice :: "string \<Rightarrow> (string list \<times> string) option" where
  "decode_slice s =
     (case s of
        [] \<Rightarrow> None
      | c # s' \<Rightarrow>
          if c \<noteq> CHR ''['' then None
          else
            (case s' of
               [] \<Rightarrow> None
             | d # s'' \<Rightarrow> if d = CHR '']'' then Some ([], s'') else decode_elems s'))"

lemma decode_elems_shorter:
  "decode_elems s = Some (vs, r) \<Longrightarrow> length r < length s"
proof (induction s arbitrary: vs rule: decode_elems.induct)
  case (1 s)
  from "1.prems" obtain v r0 where ds: "decode_string s = Some (v, r0)"
    by (subst (asm) decode_elems.simps) (auto split: option.splits)
  with "1.prems" obtain c r' where r0: "r0 = c # r'"
    by (subst (asm) decode_elems.simps) (auto split: list.splits)
  from decode_string_shorter [OF ds] r0 have len: "length r' < length s" by simp
  show ?case
  proof (cases "c = CHR '',''")
    case True
    with "1.prems" ds r0 obtain vs' where "decode_elems r' = Some (vs', r)"
      by (subst (asm) decode_elems.simps) auto
    from "1.IH" [OF ds refl r0 True this] len show ?thesis by simp
  next
    case False
    with "1.prems" ds r0 have "r = r'"
      by (subst (asm) decode_elems.simps) (auto split: if_splits)
    with len show ?thesis by simp
  qed
qed

lemma decode_slice_shorter:
  "decode_slice s = Some (vs, r) \<Longrightarrow> length r < length s"
  by (auto simp: decode_slice_def split: list.splits if_splits dest: decode_elems_shorter)

text \<open>The header map: \<open>decode_members\<close> reads the members after the brace.\<close>

function decode_members :: "header \<Rightarrow> string \<Rightarrow> (header \<times> string) option" where
  "decode_members h s =
     (case decode_string s of
        None \<Rightarrow> None
      | Some (k, r) \<Rightarrow>
          (case r of
             [] \<Rightarrow> None
           | c # r1 \<Rightarrow>
               if c \<noteq> CHR '':'' then None
               else
                 (case decode_slice r1 of
                    None \<Rightarrow> None
                  | Some (vs, r2) \<Rightarrow>
                      (case r2 of
                         [] \<Rightarrow> None
                       | d # r3 \<Rightarrow>
                           if d = CHR '','' then decode_members (fmupd k vs h) r3
                           else if d = CHR ''}'' then Some (fmupd k vs h, r3)
                           else None))))"
  by pat_completeness auto
termination
  by (relation "measure (\<lambda>(h, s). length s)")
     (auto dest!: decode_string_shorter decode_slice_shorter)

declare decode_members.simps [simp del]

definition decode_map :: "string \<Rightarrow> (header \<times> string) option" where
  "decode_map s =
     (case s of
        [] \<Rightarrow> None
      | c # s' \<Rightarrow>
          if c \<noteq> CHR ''{'' then None
          else
            (case s' of
               [] \<Rightarrow> None
             | d # s'' \<Rightarrow> if d = CHR ''}'' then Some (fmempty, s'') else decode_members fmempty s'))"

lemma decode_members_shorter:
  "decode_members h s = Some (m, r) \<Longrightarrow> length r < length s"
proof (induction h s rule: decode_members.induct)
  case (1 h s)
  from "1.prems" obtain k r0 where ds: "decode_string s = Some (k, r0)"
    by (subst (asm) decode_members.simps) (auto split: option.splits)
  with "1.prems" obtain r1 where r0: "r0 = CHR '':'' # r1"
    by (subst (asm) decode_members.simps) (auto split: list.splits if_splits)
  with "1.prems" ds obtain vs r2 where sl: "decode_slice r1 = Some (vs, r2)"
    by (subst (asm) decode_members.simps) (auto split: option.splits)
  with "1.prems" ds r0 obtain d r3 where r2: "r2 = d # r3"
    by (subst (asm) decode_members.simps) (auto split: list.splits)
  from decode_string_shorter [OF ds] decode_slice_shorter [OF sl] r0 r2
  have len: "length r3 < length s" by simp
  show ?case
  proof (cases "d = CHR '',''")
    case True
    with "1.prems" ds r0 sl r2 have "decode_members (fmupd k vs h) r3 = Some (m, r)"
      by (subst (asm) decode_members.simps) auto
    from "1.IH" [OF ds refl _ _ sl refl r2 True this] r0 len
    show ?thesis by simp
  next
    case False
    with "1.prems" ds r0 sl r2 have "r = r3"
      by (subst (asm) decode_members.simps) (auto split: if_splits)
    with len show ?thesis by simp
  qed
qed

lemma decode_map_shorter:
  "decode_map s = Some (m, r) \<Longrightarrow> length r < length s"
  by (auto simp: decode_map_def split: list.splits if_splits dest: decode_members_shorter)

text \<open>The struct: a member sets the field that its key names.\<close>

definition decode_field :: "string \<Rightarrow> requestData \<Rightarrow> string \<Rightarrow> (requestData \<times> string) option" where
  "decode_field k v s =
     (if k = ''id'' then map_option (\<lambda>(x, r). (v\<lparr>ID := x\<rparr>, r)) (decode_string s)
      else if k = ''url'' then map_option (\<lambda>(x, r). (v\<lparr>ReqURL := x\<rparr>, r)) (decode_string s)
      else if k = ''body'' then map_option (\<lambda>(x, r). (v\<lparr>ReqBody := x\<rparr>, r)) (decode_string s)
      else if k = ''header'' then map_option (\<lambda>(x, r). (v\<lparr>ReqHeader := x\<rparr>, r)) (decode_map s)
      else if k = ''method'' then map_option (\<lambda>(x, r). (v\<lparr>ReqMethod := x\<rparr>, r)) (decode_string s)
      else None)"

lemma decode_field_shorter:
  "decode_field k v s = Some (v', r) \<Longrightarrow> length r < length s"
  by (auto simp: decode_field_def split: if_splits
      dest: decode_string_shorter decode_map_shorter)

function decode_fields :: "requestData \<Rightarrow> string \<Rightarrow> (requestData \<times> string) option" where
  "decode_fields v s =
     (case decode_string s of
        None \<Rightarrow> None
      | Some (k, r) \<Rightarrow>
          (case r of
             [] \<Rightarrow> None
           | c # r1 \<Rightarrow>
               if c \<noteq> CHR '':'' then None
               else
                 (case decode_field k v r1 of
                    None \<Rightarrow> None
                  | Some (v', r2) \<Rightarrow>
                      (case r2 of
                         [] \<Rightarrow> None
                       | d # r3 \<Rightarrow>
                           if d = CHR '','' then decode_fields v' r3
                           else if d = CHR ''}'' then Some (v', r3)
                           else None))))"
  by pat_completeness auto
termination
  by (relation "measure (\<lambda>(v, s). length s)")
     (auto dest!: decode_string_shorter decode_field_shorter)

declare decode_fields.simps [simp del]

definition json_Unmarshal :: "string \<Rightarrow> requestData option" where
  "json_Unmarshal data =
     (let zero = \<lparr>ID = [], ReqURL = [], ReqBody = [], ReqHeader = fmempty, ReqMethod = []\<rparr>
      in case data of
           [] \<Rightarrow> None
         | c # s \<Rightarrow>
             if c \<noteq> CHR ''{'' then None
             else
               (case s of
                  [] \<Rightarrow> None
                | d # s' \<Rightarrow>
                    if d = CHR ''}'' then (if s' = [] then Some zero else None)
                    else
                      (case decode_fields zero s of
                         None \<Rightarrow> None
                       | Some (v, r) \<Rightarrow> if r = [] then Some v else None)))"

subsection \<open>Envelopes of valid UTF-8\<close>

text \<open>
  \<open>ValidString\<close> is \<^verbatim>\<open>utf8.ValidString\<close>: no byte of the string is one at which
  \<^verbatim>\<open>DecodeRuneInString\<close> reports an encoding error. An envelope is valid when its
  identifier, url, body and method, and every name and value of its header, are.
\<close>

fun ValidString :: "string \<Rightarrow> bool" where
  "ValidString [] = True"
| "ValidString (b # s) =
     (if (of_char b :: nat) < RuneSelf then ValidString s
      else
        (case DecodeRuneInString (b # s) of
           (c, wid) \<Rightarrow> \<not> (c = RuneError \<and> wid = 1) \<and> ValidString (drop (wid - 1) s)))"

definition valid_requestData :: "requestData \<Rightarrow> bool" where
  "valid_requestData v =
     (ValidString (ID v) \<and> ValidString (ReqURL v) \<and> ValidString (ReqBody v) \<and>
      ValidString (ReqMethod v) \<and>
      list_all (\<lambda>(k, vs). ValidString k \<and> list_all ValidString vs)
        (sorted_list_of_fmap (ReqHeader v)))"

subsection \<open>\<^verbatim>\<open>http.Header\<close> and the request\<close>

text \<open>
  \<^verbatim>\<open>Header.Get\<close> looks the canonical form of the key up and returns the first value,
  or the empty string. \<^verbatim>\<open>CanonicalMIMEHeaderKey\<close> leaves a key with a byte that is
  not a token character alone; otherwise the first letter and every letter after a
  hyphen are upper case and the others lower case.
\<close>

definition validHeaderFieldByte :: "char \<Rightarrow> bool" where
  "validHeaderFieldByte c =
     (let n = (of_char c :: nat) in
      (0x30 \<le> n \<and> n \<le> 0x39) \<or> (0x41 \<le> n \<and> n \<le> 0x5A) \<or> (0x61 \<le> n \<and> n \<le> 0x7A) \<or>
      c \<in> set (CHR 0x27 # CHR 0x60 # ''!#$%&*+-.^_|~''))"

definition toUpper :: "char \<Rightarrow> char" where
  "toUpper c = (if 0x61 \<le> (of_char c :: nat) \<and> (of_char c :: nat) \<le> 0x7A
                then char_of ((of_char c :: nat) - 0x20) else c)"

definition toLower :: "char \<Rightarrow> char" where
  "toLower c = (if 0x41 \<le> (of_char c :: nat) \<and> (of_char c :: nat) \<le> 0x5A
                then char_of ((of_char c :: nat) + 0x20) else c)"

fun canonical_from :: "bool \<Rightarrow> string \<Rightarrow> string" where
  "canonical_from upper [] = []"
| "canonical_from upper (c # s) =
     (if upper then toUpper c else toLower c) # canonical_from (c = CHR ''-'') s"

definition CanonicalMIMEHeaderKey :: "string \<Rightarrow> string" where
  "CanonicalMIMEHeaderKey s = (if list_all validHeaderFieldByte s then canonical_from True s else s)"

definition Header_Get :: "header \<Rightarrow> string \<Rightarrow> string" where
  "Header_Get h key =
     (case fmlookup h (CanonicalMIMEHeaderKey key) of
        None \<Rightarrow> []
      | Some [] \<Rightarrow> []
      | Some (v # _) \<Rightarrow> v)"

text \<open>
  The request as the handler reads it: \<open>URL_String\<close> is the value of
  \<^verbatim>\<open>r.URL.String()\<close> (for a request line \<^verbatim>\<open>GET /v1/foo?x=1\<close>, the path and
  query \<^verbatim>\<open>/v1/foo?x=1\<close>).
\<close>

record request =
  Method :: string
  URL_String :: string
  Header :: header
  Body :: body

subsection \<open>The Redis client and the process state\<close>

record tls_Config =
  RootCAs :: "string list"
  ServerName :: string

record redis_Options =
  Network :: string
  Addr :: string
  Username :: string
  Password :: string
  DB :: int
  TLSConfig :: "tls_Config option"

record XAddArgs =
  Stream :: string
  Values :: "(string \<times> string) list"

record redis_Client =
  options :: redis_Options

record myRedis =
  client :: redis_Client

text \<open>
  \<^verbatim>\<open>redis.NewClient\<close> runs \<^verbatim>\<open>opt.init()\<close> on the options before it keeps them: an
  empty \<^verbatim>\<open>Addr\<close> becomes \<^verbatim>\<open>localhost:6379\<close>, and an empty \<^verbatim>\<open>Network\<close> becomes
  \<^verbatim>\<open>unix\<close> for an address that starts with a slash and \<^verbatim>\<open>tcp\<close> otherwise. (The
  timeouts, the pool size and the dialer that \<^verbatim>\<open>init\<close> fills in as well are not fields
  of the model.)
\<close>

definition Options_init :: "redis_Options \<Rightarrow> redis_Options" where
  "Options_init opt =
     (let opt1 = (if Addr opt = [] then opt\<lparr>Addr := ''localhost:6379''\<rparr> else opt)
      in if Network opt1 = [] then
           opt1\<lparr>Network := (if take 1 (Addr opt1) = ''/'' then ''unix'' else ''tcp'')\<rparr>
         else opt1)"

definition NewClient :: "redis_Options \<Rightarrow> redis_Client" where
  "NewClient opt = \<lparr>options = Options_init opt\<rparr>"

text \<open>
  The process state: the globals of the source (\<open>env\<close>, \<open>rc\<close>, the clock \<open>now\<close>), what
  the standard logger has printed (without its date prefix), and the broker outside the
  process: \<open>server\<close> is its answer to an \<^verbatim>\<open>XADD\<close> sent by a client with the given
  options (\<open>None\<close>: accepted; \<open>Some m\<close>: the command's error), \<open>xadds\<close> the commands
  sent so far.
\<close>

record world =
  env :: envInfo
  rc :: myRedis
  now :: int
  logs :: "string list"
  server :: "redis_Options \<Rightarrow> XAddArgs \<Rightarrow> string option"
  xadds :: "XAddArgs list"

definition XAdd :: "redis_Client \<Rightarrow> XAddArgs \<Rightarrow> world \<Rightarrow> string option \<times> world" where
  "XAdd c a g = (server g (options c) a, g\<lparr>xadds := xadds g @ [a]\<rparr>)"

text \<open>\<^verbatim>\<open>log.Println\<close>: the operands with a space between them, and a newline.\<close>

fun Sprintln :: "string list \<Rightarrow> string" where
  "Sprintln [] = [CHR 0x0A]"
| "Sprintln [x] = x @ [CHR 0x0A]"
| "Sprintln (x # y # ys) = x @ '' '' @ Sprintln (y # ys)"

definition Println :: "string list \<Rightarrow> world \<Rightarrow> world" where
  "Println vs g = g\<lparr>logs := logs g @ [Sprintln vs]\<rparr>"

text \<open>
  \<^verbatim>\<open>strconv.Quote\<close>, which formats \<^verbatim>\<open>%q\<close>: exact on ASCII. For a byte from
  \<open>0x80\<close> on Go consults its Unicode tables (a printable rune is copied, a byte that is
  not UTF-8 is written \<^verbatim>\<open>\x..\<close>); the model writes every such byte \<^verbatim>\<open>\x..\<close>.
\<close>

definition quote_byte :: "char \<Rightarrow> string" where
  "quote_byte c =
     (let n = (of_char c :: nat) in
      if c = CHR 0x22 \<or> c = CHR 0x5C then [CHR 0x5C, c]
      else if 0x20 \<le> n \<and> n < 0x7F then [c]
      else if n = 7 then CHR 0x5C # ''a''
      else if n = 8 then CHR 0x5C # ''b''
      else if n = 12 then CHR 0x5C # ''f''
      else if n = 10 then CHR 0x5C # ''n''
      else if n = 13 then CHR 0x5C # ''r''
      else if n = 9 then CHR 0x5C # ''t''
      else if n = 11 then CHR 0x5C # ''v''
      else CHR 0x5C # ''x'' @ [hex ! (n div 16), hex ! (n mod 16)])"

definition Quote :: "string \<Rightarrow> string" where
  "Quote s = [CHR 0x22] @ concat (map quote_byte s) @ [CHR 0x22]"

subsection \<open>\<^verbatim>\<open>write\<close>: the append to the stream\<close>

text \<open>The parameter \<^verbatim>\<open>id\<close> of the source is \<open>ident\<close> here.\<close>

definition myRedis_write :: "myRedis \<Rightarrow> envInfo \<Rightarrow> string \<Rightarrow> string \<Rightarrow> world \<Rightarrow> error option \<times> world" where
  "myRedis_write mr s reqJSON ident g =
     (let (strCMD_Err, g') =
            XAdd (client mr) \<lparr>Stream = StreamName s, Values = [(''data'', reqJSON)]\<rparr> g
      in case strCMD_Err of
           Some e \<Rightarrow> (Some (errorString (''failed to publish '' @ Quote ident @ '': '' @ e)), g')
         | None \<Rightarrow> (None, g'))"

subsection \<open>\<^verbatim>\<open>handleRequest\<close>\<close>

text \<open>
  \<open>NewFromTime\<close> stands for \<^verbatim>\<open>gouuidv6.NewFromTime(t).String()\<close>: the identifier the
  UUID package returns for an instant. \<open>buildRequestData\<close> is the composite literal
  \<^verbatim>\<open>requestData{...}\<close> of the handler with the header lookup before it; the handler
  applies it to the identifier and to the body read.
\<close>

definition buildRequestData :: "string \<Rightarrow> string \<Rightarrow> request \<Rightarrow> requestData" where
  "buildRequestData ident reqBodyString r =
     (let originalHost = Header_Get (Header r) ''Async-Original-Host''
      in \<lparr>ID = ident,
          ReqURL = ''http://'' @ originalHost @ URL_String r,
          ReqBody = reqBodyString,
          ReqHeader = Header r,
          ReqMethod = Method r\<rparr>)"

definition handleRequest ::
  "(int \<Rightarrow> string) \<Rightarrow> world \<Rightarrow> ResponseWriter \<Rightarrow> request \<Rightarrow> ResponseWriter \<times> world" where
  "handleRequest NewFromTime g w r =
     (let ((b, err), l) = ReadAll (MaxBytesReader w (Body r) (sint (RequestSizeLimit (env g))));
          w = mbr_w l
      in case err of
           Some e \<Rightarrow>
             if Error e = ''http: request body too large'' then
               (WriteHeader StatusInternalServerError w,
                Println [''HTTP Request body too large '', Error e] g)
             else
               (WriteHeader StatusInternalServerError w,
                Println [''Error writing to buffer: '', Error e] g)
         | None \<Rightarrow>
             let reqData = buildRequestData (NewFromTime (now g)) b r;
                 (reqJSON, err) = json_Marshal reqData
             in case err of
                  Some e \<Rightarrow>
                    (WriteHeader StatusInternalServerError w,
                     Println [''Failed to marshal request: '', Error e] g)
                | None \<Rightarrow>
                    (case myRedis_write (rc g) (env g) reqJSON (ID reqData) g of
                       (Some e, g') \<Rightarrow>
                         (WriteHeader StatusInternalServerError w,
                          Println [''Error asynchronous writing request to storage '', Error e] g')
                     | (None, g') \<Rightarrow>
                         (WriteHeader StatusAccepted w, Println [''request accepted''] g')))"

subsection \<open>\<^verbatim>\<open>setUpRedis\<close> and \<^verbatim>\<open>main\<close>\<close>

text \<open>
  The parsers behind connection setup are parameters: \<open>certsFromPEM\<close> gives the
  certificates that \<^verbatim>\<open>x509.CertPool.AppendCertsFromPEM\<close> parses out of a non-empty PEM
  text, \<open>ParseURL\<close> is \<^verbatim>\<open>redis.ParseURL\<close> (\<open>Inl\<close>: its error). The loop of
  \<^verbatim>\<open>AppendCertsFromPEM\<close> runs \<^verbatim>\<open>for len(pemCerts) > 0\<close>: on an empty text it
  adds nothing and reports \<open>False\<close>.
\<close>

record library =
  certsFromPEM :: "string \<Rightarrow> string list"
  ParseURL :: "string \<Rightarrow> string + redis_Options"

definition AppendCertsFromPEM :: "library \<Rightarrow> string list \<Rightarrow> string \<Rightarrow> bool \<times> string list" where
  "AppendCertsFromPEM L roots pemCerts =
     (if pemCerts = [] then (False, roots)
      else (certsFromPEM L pemCerts \<noteq> [], roots @ certsFromPEM L pemCerts))"

text \<open>
  \<open>Inl m\<close> is \<^verbatim>\<open>log.Fatal(m)\<close>: the message is printed and the process exits with
  status 1. \<open>Inr g\<close> is the state in which the function returns.
\<close>

definition setUpRedis :: "library \<Rightarrow> world \<Rightarrow> string + world" where
  "setUpRedis L g =
     (let (certFound, roots) = AppendCertsFromPEM L [] (TlsCert (env g))
      in if certFound then
           (let g1 = Println [''found a cert''] g
            in case ParseURL L (RedisAddress (env g)) of
                 Inl e \<Rightarrow> Inl e
               | Inr opt \<Rightarrow>
                   Inr (g1\<lparr>rc := \<lparr>client = NewClient
                          (opt\<lparr>TLSConfig := Some \<lparr>RootCAs = roots, ServerName = []\<rparr>\<rparr>)\<rparr>\<rparr>))
         else
           (let g1 = Println [''didnt find a cert''] g
            in Inr (g1\<lparr>rc := \<lparr>client = NewClient
                  \<lparr>Network = [], Addr = RedisAddress (env g), Username = [], Password = [],
                   DB = 0, TLSConfig = None\<rparr>\<rparr>\<rparr>)))"

text \<open>
  \<open>main\<close>: \<open>processed\<close> is the result of \<^verbatim>\<open>envconfig.Process\<close> (\<open>Inl\<close>: its
  error). \<open>Inr g\<close> is the state in which \<^verbatim>\<open>handleRequest\<close> is registered and
  \<^verbatim>\<open>http.ListenAndServe\<close> is called: from then on requests are served in \<open>g\<close>.
\<close>

definition main :: "library \<Rightarrow> string + envInfo \<Rightarrow> world \<Rightarrow> string + world" where
  "main L processed g =
     (case processed of
        Inl e \<Rightarrow> Inl e
      | Inr e \<Rightarrow> setUpRedis L (g\<lparr>env := e\<rparr>))"

subsection \<open>The envelope and the stream entry of a request\<close>

text \<open>
  For a request whose body is read in full: \<open>envelope\<close> is the \<^verbatim>\<open>reqData\<close> the
  handler builds, \<open>entry\<close> the arguments of the \<^verbatim>\<open>XADD\<close> that \<^verbatim>\<open>write\<close>
  sends for it, \<open>answer\<close> the broker's answer to that command. \<open>plain\<close> holds of a
  string of printable ASCII with no quote and no backslash (the alphabet of a UUID in
  its text form is within it).
\<close>

definition envelope :: "(int \<Rightarrow> string) \<Rightarrow> world \<Rightarrow> request \<Rightarrow> requestData" where
  "envelope NewFromTime g r = buildRequestData (NewFromTime (now g)) (pending (Body r)) r"

definition entry :: "(int \<Rightarrow> string) \<Rightarrow> world \<Rightarrow> request \<Rightarrow> XAddArgs" where
  "entry NewFromTime g r =
     \<lparr>Stream = StreamName (env g),
      Values = [(''data'', fst (json_Marshal (envelope NewFromTime g r)))]\<rparr>"

definition answer :: "(int \<Rightarrow> string) \<Rightarrow> world \<Rightarrow> request \<Rightarrow> string option" where
  "answer NewFromTime g r = server g (options (client (rc g))) (entry NewFromTime g r)"

definition plain :: "string \<Rightarrow> bool" where
  "plain s = list_all (\<lambda>c. 0x20 \<le> (of_char c :: nat) \<and> (of_char c :: nat) < 0x7F \<and>
                              c \<noteq> CHR 0x22 \<and> c \<noteq> CHR 0x5C) s"

text \<open>
  \<open>json_plain\<close> holds of a plain string that has none of \<open>&\<close>, \<open><\<close> and \<open>>\<close> either
  (a UUID in its text form is hexadecimal digits and hyphens). \<open>writer_options\<close> are the
  options of the client that connection setup leaves in \<open>rc\<close>; there are none when
  setup has ended the process.
\<close>

definition json_plain :: "string \<Rightarrow> bool" where
  "json_plain s = list_all (\<lambda>c. 0x20 \<le> (of_char c :: nat) \<and> (of_char c :: nat) < 0x7F \<and>
                                   c \<noteq> CHR 0x22 \<and> c \<noteq> CHR 0x5C \<and>
                                   c \<noteq> CHR ''&'' \<and> c \<noteq> CHR ''<'' \<and> c \<noteq> CHR ''>'') s"

definition writer_options :: "string + world \<Rightarrow> redis_Options option" where
  "writer_options res = (case res of Inl m \<Rightarrow> None | Inr g \<Rightarrow> Some (options (client (rc g))))"

subsection \<open>An example configuration\<close>

text \<open>
  A fresh response, a configuration with a limit of three bytes, a broker that gives the
  answer \<open>a\<close> to every command, a request for \<^verbatim>\<open>/v1/foo?x=1\<close>, and a stand-in for
  the third-party parsers. \<open>example_pem\<close> is the PEM text of a certificate in public
  use (the root certificate Amazon Root CA 3) and \<open>example_der\<close> the bytes its base64
  lines encode; the stand-in finds that certificate in that text and none in any other.
  It parses the URL \<^verbatim>\<open>redis://localhost:6379\<close> to the options that \<^verbatim>\<open>redis.ParseURL\<close>
  gives for it, and rejects every other address with the library's complaint about the
  scheme, the text before the first colon: that is the library's answer for the address
  \<^verbatim>\<open>localhost:6379\<close> and for the empty address, the only other addresses used below.
\<close>

definition newResponse :: ResponseWriter where
  "newResponse = \<lparr>status = None, written = [], closeAfterReply = False\<rparr>"

definition example_env :: envInfo where
  "example_env =
     \<lparr>StreamName = ''requests'', RedisAddress = ''localhost:6379'', RequestSizeLimit = 3,
      TlsCert = []\<rparr>"

definition example_world :: "string option \<Rightarrow> world" where
  "example_world a =
     \<lparr>env = example_env,
      rc = \<lparr>client = NewClient \<lparr>Network = [], Addr = ''localhost:6379'', Username = [],
                                  Password = [], DB = 0, TLSConfig = None\<rparr>\<rparr>,
      now = 1600000000000000000,
      logs = [],
      server = (\<lambda>opt args. a),
      xadds = []\<rparr>"

definition example_request :: "(string \<times> string list) list \<Rightarrow> string \<Rightarrow> request" where
  "example_request h b =
     \<lparr>Method = ''POST'', URL_String = ''/v1/foo?x=1'', Header = fmap_of_list h,
      Body = \<lparr>pending = b, fault = None\<rparr>\<rparr>"

definition example_NewFromTime :: "int \<Rightarrow> string" where
  "example_NewFromTime t = ''1eb0a3d2-7c1e-6f00-8000-0242ac110002''"

definition example_pem :: string where
  "example_pem =
     ''-----BEGIN CERTIFICATE-----'' @ [CHR 0x0A] @
     ''MIIBtjCCAVugAwIBAgITBmyf1XSXNmY/Owua2eiedgPySjAKBggqhkjOPQQDAjA5'' @ [CHR 0x0A] @
     ''MQswCQYDVQQGEwJVUzEPMA0GA1UEChMGQW1hem9uMRkwFwYDVQQDExBBbWF6b24g'' @ [CHR 0x0A] @
     ''Um9vdCBDQSAzMB4XDTE1MDUyNjAwMDAwMFoXDTQwMDUyNjAwMDAwMFowOTELMAkG'' @ [CHR 0x0A] @
     ''A1UEBhMCVVMxDzANBgNVBAoTBkFtYXpvbjEZMBcGA1UEAxMQQW1hem9uIFJvb3Qg'' @ [CHR 0x0A] @
     ''Q0EgMzBZMBMGByqGSM49AgEGCCqGSM49AwEHA0IABCmXp8ZBf8ANm+gBG1bG8lKl'' @ [CHR 0x0A] @
     ''ui2yEujSLtf6ycXYqm0fc4E7O5hrOXwzpcVOho6AF2hiRVd9RFgdszflZwjrZt6j'' @ [CHR 0x0A] @
     ''QjBAMA8GA1UdEwEB/wQFMAMBAf8wDgYDVR0PAQH/BAQDAgGGMB0GA1UdDgQWBBSr'' @ [CHR 0x0A] @
     ''ttvXBp43rDCGB5Fwx5zEGbF4wDAKBggqhkjOPQQDAgNJADBGAiEA4IWSoxe3jfkr'' @ [CHR 0x0A] @
     ''BqWTrBqYaGFy+uGh0PsceGCmQ5nFuMQCIQCcAu/xlJyzlvnrxir4tiz+OpAUFteM'' @ [CHR 0x0A] @
     ''YyRIHN8wfdVoOw=='' @ [CHR 0x0A] @
     ''-----END CERTIFICATE-----'' @ [CHR 0x0A]"

definition example_der :: string where
  "example_der = map char_of
     [0x30, 0x82, 0x01, 0xB6, 0x30, 0x82, 0x01, 0x5B, 0xA0, 0x03, 0x02, 0x01,
      0x02, 0x02, 0x13, 0x06, 0x6C, 0x9F, 0xD5, 0x74, 0x97, 0x36, 0x66, 0x3F,
      0x3B, 0x0B, 0x9A, 0xD9, 0xE8, 0x9E, 0x76, 0x03, 0xF2, 0x4A, 0x30, 0x0A,
      0x06, 0x08, 0x2A, 0x86, 0x48, 0xCE, 0x3D, 0x04, 0x03, 0x02, 0x30, 0x39,
      0x31, 0x0B, 0x30, 0x09, 0x06, 0x03, 0x55, 0x04, 0x06, 0x13, 0x02, 0x55,
      0x53, 0x31, 0x0F, 0x30, 0x0D, 0x06, 0x03, 0x55, 0x04, 0x0A, 0x13, 0x06,
      0x41, 0x6D, 0x61, 0x7A, 0x6F, 0x6E, 0x31, 0x19, 0x30, 0x17, 0x06, 0x03,
      0x55, 0x04, 0x03, 0x13, 0x10, 0x41, 0x6D, 0x61, 0x7A, 0x6F, 0x6E, 0x20,
      0x52, 0x6F, 0x6F, 0x74, 0x20, 0x43, 0x41, 0x20, 0x33, 0x30, 0x1E, 0x17,
      0x0D, 0x31, 0x35, 0x30, 0x35, 0x32, 0x36, 0x30, 0x30, 0x30, 0x30, 0x30,
      0x30, 0x5A, 0x17, 0x0D, 0x34, 0x30, 0x30, 0x35, 0x32, 0x36, 0x30, 0x30,
      0x30, 0x30, 0x30, 0x30, 0x5A, 0x30, 0x39, 0x31, 0x0B, 0x30, 0x09, 0x06,
      0x03, 0x55, 0x04, 0x06, 0x13, 0x02, 0x55, 0x53, 0x31, 0x0F, 0x30, 0x0D,
      0x06, 0x03, 0x55, 0x04, 0x0A, 0x13, 0x06, 0x41, 0x6D, 0x61, 0x7A, 0x6F,
      0x6E, 0x31, 0x19, 0x30, 0x17, 0x06, 0x03, 0x55, 0x04, 0x03, 0x13, 0x10,
      0x41, 0x6D, 0x61, 0x7A, 0x6F, 0x6E, 0x20, 0x52, 0x6F, 0x6F, 0x74, 0x20,
      0x43, 0x41, 0x20, 0x33, 0x30, 0x59, 0x30, 0x13, 0x06, 0x07, 0x2A, 0x86,
      0x48, 0xCE, 0x3D, 0x02, 0x01, 0x06, 0x08, 0x2A, 0x86, 0x48, 0xCE, 0x3D,
      0x03, 0x01, 0x07, 0x03, 0x42, 0x00, 0x04, 0x29, 0x97, 0xA7, 0xC6, 0x41,
      0x7F, 0xC0, 0x0D, 0x9B, 0xE8, 0x01, 0x1B, 0x56, 0xC6, 0xF2, 0x52, 0xA5,
      0xBA, 0x2D, 0xB2, 0x12, 0xE8, 0xD2, 0x2E, 0xD7, 0xFA, 0xC9, 0xC5, 0xD8,
      0xAA, 0x6D, 0x1F, 0x73, 0x81, 0x3B, 0x3B, 0x98, 0x6B, 0x39, 0x7C, 0x33,
      0xA5, 0xC5, 0x4E, 0x86, 0x8E, 0x80, 0x17, 0x68, 0x62, 0x45, 0x57, 0x7D,
      0x44, 0x58, 0x1D, 0xB3, 0x37, 0xE5, 0x67, 0x08, 0xEB, 0x66, 0xDE, 0xA3,
      0x42, 0x30, 0x40, 0x30, 0x0F, 0x06, 0x03, 0x55, 0x1D, 0x13, 0x01, 0x01,
      0xFF, 0x04, 0x05, 0x30, 0x03, 0x01, 0x01, 0xFF, 0x30, 0x0E, 0x06, 0x03,
      0x55, 0x1D, 0x0F, 0x01, 0x01, 0xFF, 0x04, 0x04, 0x03, 0x02, 0x01, 0x86,
      0x30, 0x1D, 0x06, 0x03, 0x55, 0x1D, 0x0E, 0x04, 0x16, 0x04, 0x14, 0xAB,
      0xB6, 0xDB, 0xD7, 0x06, 0x9E, 0x37, 0xAC, 0x30, 0x86, 0x07, 0x91, 0x70,
      0xC7, 0x9C, 0xC4, 0x19, 0xB1, 0x78, 0xC0, 0x30, 0x0A, 0x06, 0x08, 0x2A,
      0x86, 0x48, 0xCE, 0x3D, 0x04, 0x03, 0x02, 0x03, 0x49, 0x00, 0x30, 0x46,
      0x02, 0x21, 0x00, 0xE0, 0x85, 0x92, 0xA3, 0x17, 0xB7, 0x8D, 0xF9, 0x2B,
      0x06, 0xA5, 0x93, 0xAC, 0x1A, 0x98, 0x68, 0x61, 0x72, 0xFA, 0xE1, 0xA1,
      0xD0, 0xFB, 0x1C, 0x78, 0x60, 0xA6, 0x43, 0x99, 0xC5, 0xB8, 0xC4, 0x02,
      0x21, 0x00, 0x9C, 0x02, 0xEF, 0xF1, 0x94, 0x9C, 0xB3, 0x96, 0xF9, 0xEB,
      0xC6, 0x2A, 0xF8, 0xB6, 0x2C, 0xFE, 0x3A, 0x90, 0x14, 0x16, 0xD7, 0x8C,
      0x63, 0x24, 0x48, 0x1C, 0xDF, 0x30, 0x7D, 0xD5, 0x68, 0x3B :: nat]"

definition example_library :: library where
  "example_library =
     \<lparr>certsFromPEM = (\<lambda>s. if s = example_pem then [example_der] else []),
      ParseURL = (\<lambda>s. if s = ''redis://localhost:6379''
                      then Inr \<lparr>Network = ''tcp'', Addr = ''localhost:6379'', Username = [],
                                Password = [], DB = 0, TLSConfig = None\<rparr>
                      else Inl (''redis: invalid URL scheme: '' @
                                takeWhile (\<lambda>c. c \<noteq> CHR '':'') s))\<rparr>"

definition configured :: "string \<Rightarrow> string \<Rightarrow> world" where
  "configured address cert =
     (example_world None)\<lparr>env := example_env\<lparr>RedisAddress := address, TlsCert := cert\<rparr>\<rparr>"

subsection \<open>Auxiliary notions\<close>

text \<open>
  \<open>rune_at s c w\<close>: the string \<open>s\<close> starts with a well-formed encoding, \<open>w\<close> bytes
  long, of the rune \<open>c\<close>. \<open>encode_member\<close> is one member of an encoded map.
\<close>

definition rune_at :: "string \<Rightarrow> nat \<Rightarrow> nat \<Rightarrow> bool" where
  "rune_at s c w =
    ((w = 1 \<and> 1 \<le> length s \<and> of_char (s ! 0) < (0x80::nat) \<and> c = of_char (s ! 0)) \<or>
     (w = 2 \<and> 2 \<le> length s \<and> 0xC2 \<le> (of_char (s ! 0) :: nat) \<and> (of_char (s ! 0) :: nat) < 0xE0 \<and>
        0x80 \<le> (of_char (s ! 1) :: nat) \<and> (of_char (s ! 1) :: nat) \<le> 0xBF \<and>
        c = (of_char (s ! 0) mod 32) * 64 + of_char (s ! 1) mod 64) \<or>
     (w = 3 \<and> 3 \<le> length s \<and> 0xE0 \<le> (of_char (s ! 0) :: nat) \<and> (of_char (s ! 0) :: nat) < 0xF0 \<and>
        (if of_char (s ! 0) = (0xE0::nat) then 0xA0 else 0x80) \<le> (of_char (s ! 1) :: nat) \<and>
        (of_char (s ! 1) :: nat) \<le> (if of_char (s ! 0) = (0xED::nat) then 0x9F else 0xBF) \<and>
        0x80 \<le> (of_char (s ! 2) :: nat) \<and> (of_char (s ! 2) :: nat) \<le> 0xBF \<and>
        c = (of_char (s ! 0) mod 16) * 4096 + (of_char (s ! 1) mod 64) * 64 + of_char (s ! 2) mod 64) \<or>
     (w = 4 \<and> 4 \<le> length s \<and> 0xF0 \<le> (of_char (s ! 0) :: nat) \<and> (of_char (s ! 0) :: nat) \<le> 0xF4 \<and>
        (if of_char (s ! 0) = (0xF0::nat) then 0x90 else 0x80) \<le> (of_char (s ! 1) :: nat) \<and>
        (of_char (s ! 1) :: nat) \<le> (if of_char (s ! 0) = (0xF4::nat) then 0x8F else 0xBF) \<and>
        0x80 \<le> (of_char (s ! 2) :: nat) \<and> (of_char (s ! 2) :: nat) \<le> 0xBF \<and>
        0x80 \<le> (of_char (s ! 3) :: nat) \<and> (of_char (s ! 3) :: nat) \<le> 0xBF \<and>
        c = (of_char (s ! 0) mod 8) * 262144 + (of_char (s ! 1) mod 64) * 4096 +
            (of_char (s ! 2) mod 64) * 64 + of_char (s ! 3) mod 64))"

definition encode_member :: "string \<times> string list \<Rightarrow> string" where
  "encode_member = (\<lambda>(k, vs). encode_string k @ '':'' @ encode_slice vs)"

text \<open>An envelope with a repeated header value, for a given body.\<close>

definition example_envelope :: "string \<Rightarrow> requestData" where
  "example_envelope b =
     \<lparr>ID = ''1eb0a3d2-7c1e-6f00-8000-0242ac110002'',
      ReqURL = ''http://example.com/v1/foo?x=1'',
      ReqBody = b,
      ReqHeader = fmap_of_list [(''X-Tag'', [''b'', ''a'', ''b'']), (''Accept'', [''*/*''])],
      ReqMethod = ''POST''\<rparr>"

section \<open>Lemmas\<close>

subsection \<open>Reading the body\<close>

text \<open>One \<^verbatim>\<open>Read\<close> of a reader with no sticky error, by cases.\<close>

lemma mbr_Read_cases:
  assumes "mbr_err l = None" "0 \<le> mbr_n l"
  shows "mbr_Read (Suc c) l =
    (let d = pending (mbr_r l); n = nat (mbr_n l); k' = (if int c > mbr_n l then Suc n else Suc c) in
     if d = [] then
       (let e0 = (case fault (mbr_r l) of None \<Rightarrow> io_EOF | Some m \<Rightarrow> errorString m)
        in (([], Some e0), l\<lparr>mbr_r := mbr_r l, mbr_n := mbr_n l, mbr_err := Some e0\<rparr>))
     else if length (take k' d) \<le> n then
       ((take k' d, None), l\<lparr>mbr_r := (mbr_r l)\<lparr>pending := drop k' d\<rparr>,
            mbr_n := mbr_n l - int (length (take k' d)), mbr_err := None\<rparr>)
     else ((take n d, Some (errorString ''http: request body too large'')),
            l\<lparr>mbr_w := requestTooLarge (mbr_w l), mbr_r := (mbr_r l)\<lparr>pending := drop k' d\<rparr>, mbr_n := 0,
              mbr_err := Some (errorString ''http: request body too large'')\<rparr>))"
  using assms
  apply (simp add: mbr_Read_def body_Read_def Let_def nat_add_distrib)
  apply (auto simp: min_def nat_add_distrib split: if_splits)
  done

text \<open>
  What the loop returns: the whole body (and the stream's own fault, if any) when it fits
  the remaining allowance, the too-large error otherwise, whatever the buffer size.
\<close>

lemma ReadAll_from_result:
  assumes "mbr_err l = None" "0 \<le> mbr_n l"
  shows "fst (ReadAll_from c l b) =
      (if int (length (pending (mbr_r l))) \<le> mbr_n l
       then (b @ pending (mbr_r l), map_option errorString (fault (mbr_r l)))
       else (b @ take (nat (mbr_n l)) (pending (mbr_r l)),
             Some (errorString ''http: request body too large'')))
    \<and> mbr_w (snd (ReadAll_from c l b)) =
      (if int (length (pending (mbr_r l))) \<le> mbr_n l then mbr_w l
       else requestTooLarge (mbr_w l))"
  using assms
proof (induction c l b rule: ReadAll_from.induct)
  case (1 c l b)
  define d where "d = pending (mbr_r l)"
  define n where "n = nat (mbr_n l)"
  define k' where "k' = (if int c > mbr_n l then Suc n else Suc c)"
  have n: "mbr_n l = int n" using "1.prems" by (simp add: n_def)
  have k'_le: "k' \<le> Suc n" using n by (auto simp: k'_def)
  have k'_pos: "0 < k'" by (simp add: k'_def)
  note step = mbr_Read_cases [OF "1.prems", of c, folded d_def n_def, unfolded Let_def, folded k'_def]
  show ?case
  proof (cases "d = []")
    case True
    then show ?thesis
      using step
      by (subst (1 2) ReadAll_from.simps) (auto simp: d_def [symmetric] n split: option.splits)
  next
    case False
    show ?thesis
    proof (cases "length (take k' d) \<le> n")
      case True
      let ?l' = "l\<lparr>mbr_r := (mbr_r l)\<lparr>pending := drop k' d\<rparr>,
            mbr_n := mbr_n l - int (length (take k' d)), mbr_err := None\<rparr>"
      have st: "mbr_Read (Suc c) l = ((take k' d, None), ?l')"
        using step False True by simp
      have ih: "fst (ReadAll_from c ?l' (b @ take k' d)) =
        (if int (length (pending (mbr_r ?l'))) \<le> mbr_n ?l'
         then ((b @ take k' d) @ pending (mbr_r ?l'), map_option errorString (fault (mbr_r ?l')))
         else ((b @ take k' d) @ take (nat (mbr_n ?l')) (pending (mbr_r ?l')),
             Some (errorString ''http: request body too large'')))
        \<and> mbr_w (snd (ReadAll_from c ?l' (b @ take k' d))) =
        (if int (length (pending (mbr_r ?l'))) \<le> mbr_n ?l' then mbr_w ?l'
         else requestTooLarge (mbr_w ?l'))"
        using True n by (intro "1.IH" [OF st [symmetric] refl refl]) auto
      have unf: "ReadAll_from c l b = ReadAll_from c ?l' (b @ take k' d)"
        by (subst ReadAll_from.simps) (simp add: st)
      have len: "(int (length (drop k' d)) \<le> mbr_n l - int (length (take k' d))) = (int (length d) \<le> mbr_n l)"
        using True n by (auto simp: min_def)
      have tk: "int (length d) > mbr_n l \<Longrightarrow>
        take k' d @ take (nat (mbr_n l - int (length (take k' d)))) (drop k' d) = take n d"
      proof -
        assume "int (length d) > mbr_n l"
        then have "n < length d" using n by simp
        with True have "k' \<le> n" by (auto simp: min_def split: if_splits)
        then obtain m where m: "n = k' + m" using le_Suc_ex by blast
        have "length (take k' d) = k'" using \<open>n < length d\<close> \<open>k' \<le> n\<close> by simp
        then show ?thesis using n m by (simp add: take_add)
      qed
      show ?thesis
        unfolding unf using ih len tk by (auto simp: d_def [symmetric] n_def [symmetric])
    next
      case False
      then have "n < length d" using k'_le by (auto simp: min_def split: if_splits)
      then show ?thesis
        using step False \<open>d \<noteq> []\<close> n
        by (subst (1 2) ReadAll_from.simps) (auto simp: d_def [symmetric] n_def [symmetric])
    qed
  qed
qed

text \<open>
  \<^verbatim>\<open>ReadAll\<close> over a fresh \<^verbatim>\<open>MaxBytesReader\<close>: a body of at most \<open>n\<close> bytes
  is returned whole, with the stream's own fault if it has one; a longer body gives the
  too-large error and marks the response.
\<close>

lemma ReadAll_MaxBytesReader:
  "fst (ReadAll (MaxBytesReader w bd n)) =
     (if int (length (pending bd)) \<le> max 0 n
      then (pending bd, map_option errorString (fault bd))
      else (take (nat n) (pending bd), Some (errorString ''http: request body too large'')))"
  "mbr_w (snd (ReadAll (MaxBytesReader w bd n))) =
     (if int (length (pending bd)) \<le> max 0 n then w else requestTooLarge w)"
  using ReadAll_from_result [of "MaxBytesReader w bd n" "MinRead - 1" "[]"]
  by (auto simp: ReadAll_def MaxBytesReader_def max_def)

subsection \<open>The three ways through the handler\<close>

lemma handleRequest_oversized:
  assumes "max 0 (sint (RequestSizeLimit (env g))) < int (length (pending (Body r)))"
  shows "handleRequest U g w r =
    (WriteHeader StatusInternalServerError (requestTooLarge w),
     Println [''HTTP Request body too large '', ''http: request body too large''] g)"
proof -
  obtain b e l where ra:
    "ReadAll (MaxBytesReader w (Body r) (sint (RequestSizeLimit (env g)))) = ((b, e), l)"
    by (metis prod.exhaust)
  from ReadAll_MaxBytesReader [of w "Body r" "sint (RequestSizeLimit (env g))"] ra assms
  have "e = Some (errorString ''http: request body too large'')" "mbr_w l = requestTooLarge w"
    by auto
  with ra show ?thesis by (simp add: handleRequest_def)
qed

lemma handleRequest_fault:
  assumes "int (length (pending (Body r))) \<le> max 0 (sint (RequestSizeLimit (env g)))"
    and "fault (Body r) = Some m"
  shows "handleRequest U g w r =
    (WriteHeader StatusInternalServerError w,
     Println [if m = ''http: request body too large'' then ''HTTP Request body too large ''
              else ''Error writing to buffer: '', m] g)"
proof -
  obtain b e l where ra:
    "ReadAll (MaxBytesReader w (Body r) (sint (RequestSizeLimit (env g)))) = ((b, e), l)"
    by (metis prod.exhaust)
  from ReadAll_MaxBytesReader [of w "Body r" "sint (RequestSizeLimit (env g))"] ra assms
  have "e = Some (errorString m)" "mbr_w l = w"
    by auto
  with ra show ?thesis by (simp add: handleRequest_def)
qed

lemma handleRequest_read:
  assumes "int (length (pending (Body r))) \<le> max 0 (sint (RequestSizeLimit (env g)))"
    and "fault (Body r) = None"
  shows "handleRequest U g w r =
    (case answer U g r of
       Some e \<Rightarrow>
         (WriteHeader StatusInternalServerError w,
          Println [''Error asynchronous writing request to storage '',
                   ''failed to publish '' @ Quote (U (now g)) @ '': '' @ e]
            (g\<lparr>xadds := xadds g @ [entry U g r]\<rparr>))
     | None \<Rightarrow>
         (WriteHeader StatusAccepted w,
          Println [''request accepted''] (g\<lparr>xadds := xadds g @ [entry U g r]\<rparr>)))"
proof -
  obtain b e l where ra:
    "ReadAll (MaxBytesReader w (Body r) (sint (RequestSizeLimit (env g)))) = ((b, e), l)"
    by (metis prod.exhaust)
  from ReadAll_MaxBytesReader [of w "Body r" "sint (RequestSizeLimit (env g))"] ra assms
  have "e = None" "mbr_w l = w" "b = pending (Body r)"
    by auto
  with ra show ?thesis
    by (simp add: handleRequest_def json_Marshal_def myRedis_write_def XAdd_def answer_def
        entry_def envelope_def buildRequestData_def Let_def split: option.splits)
qed

lemma myRedis_write_eq:
  "myRedis_write mr s j i g =
     (map_option (\<lambda>e. errorString (''failed to publish '' @ Quote i @ '': '' @ e))
        (server g (options (client mr)) \<lparr>Stream = StreamName s, Values = [(''data'', j)]\<rparr>),
      g\<lparr>xadds := xadds g @ [\<lparr>Stream = StreamName s, Values = [(''data'', j)]\<rparr>]\<rparr>)"
  by (simp add: myRedis_write_def XAdd_def split: option.splits)

lemma Quote_plain: "plain s \<Longrightarrow> Quote s = [CHR 0x22] @ s @ [CHR 0x22]"
proof -
  assume "plain s"
  then have "concat (map quote_byte s) = s"
    by (induction s) (auto simp: plain_def quote_byte_def Let_def)
  then show ?thesis by (simp add: Quote_def)
qed

lemma canonical_original_host:
  "CanonicalMIMEHeaderKey ''Async-Original-Host'' = ''Async-Original-Host''"
  by (simp add: CanonicalMIMEHeaderKey_def validHeaderFieldByte_def toUpper_def toLower_def)

subsection \<open>UTF-8: encoding a decoded rune gives its bytes back\<close>

lemma DecodeRune_cases:
  assumes "DecodeRuneInString s = (c, w)" and "s \<noteq> []"
  shows
    "(w = 1 \<and> c = RuneError) \<or>
     (w = 1 \<and> of_char (s ! 0) < (0x80::nat) \<and> c = of_char (s ! 0)) \<or>
     (w = 2 \<and> 2 \<le> length s \<and> 0xC2 \<le> (of_char (s ! 0) :: nat) \<and> (of_char (s ! 0) :: nat) < 0xE0 \<and>
        0x80 \<le> (of_char (s ! 1) :: nat) \<and> (of_char (s ! 1) :: nat) \<le> 0xBF \<and>
        c = (of_char (s ! 0) mod 32) * 64 + of_char (s ! 1) mod 64) \<or>
     (w = 3 \<and> 3 \<le> length s \<and> 0xE0 \<le> (of_char (s ! 0) :: nat) \<and> (of_char (s ! 0) :: nat) < 0xF0 \<and>
        (if of_char (s ! 0) = (0xE0::nat) then 0xA0 else 0x80) \<le> (of_char (s ! 1) :: nat) \<and>
        (of_char (s ! 1) :: nat) \<le> (if of_char (s ! 0) = (0xED::nat) then 0x9F else 0xBF) \<and>
        0x80 \<le> (of_char (s ! 2) :: nat) \<and> (of_char (s ! 2) :: nat) \<le> 0xBF \<and>
        c = (of_char (s ! 0) mod 16) * 4096 + (of_char (s ! 1) mod 64) * 64 + of_char (s ! 2) mod 64) \<or>
     (w = 4 \<and> 4 \<le> length s \<and> 0xF0 \<le> (of_char (s ! 0) :: nat) \<and> (of_char (s ! 0) :: nat) \<le> 0xF4 \<and>
        (if of_char (s ! 0) = (0xF0::nat) then 0x90 else 0x80) \<le> (of_char (s ! 1) :: nat) \<and>
        (of_char (s ! 1) :: nat) \<le> (if of_char (s ! 0) = (0xF4::nat) then 0x8F else 0xBF) \<and>
        0x80 \<le> (of_char (s ! 2) :: nat) \<and> (of_char (s ! 2) :: nat) \<le> 0xBF \<and>
        0x80 \<le> (of_char (s ! 3) :: nat) \<and> (of_char (s ! 3) :: nat) \<le> 0xBF \<and>
        c = (of_char (s ! 0) mod 8) * 262144 + (of_char (s ! 1) mod 64) * 4096 +
            (of_char (s ! 2) mod 64) * 64 + of_char (s ! 3) mod 64)"
proof -
  define a where "a = (of_char (s ! 0) :: nat)"
  show ?thesis
    using assms unfolding DecodeRuneInString_def Let_def a_def [symmetric]
    by (auto simp: first_def acceptRanges_def split: if_splits prod.splits)
qed

lemma mod_offset: "x < m \<Longrightarrow> (q * m + x) mod m = (x::nat)"
  by simp

lemma enc2:
  fixes a b c :: nat
  assumes "0xC2 \<le> a" "a < 0xE0" "0x80 \<le> b" "b \<le> 0xBF"
    and "c = (a mod 32) * 64 + b mod 64"
  shows "0x7F < c \<and> c \<le> 0x7FF \<and> 0xC0 + c div 64 = a \<and> 0x80 + c mod 64 = b"
proof -
  define x where "x = a - 192"
  define y where "y = b - 128"
  have xy: "a = 192 + x" "b = 128 + y" "2 \<le> x" "x < 32" "y < 64"
    using assms by (simp_all add: x_def y_def)
  have a: "a mod 32 = x" using mod_offset [of x 32 6] xy by simp
  have b: "b mod 64 = y" using mod_offset [of y 64 2] xy by simp
  have c: "c = x * 64 + y" using assms a b by simp
  have d: "c div 64 = x"
    by (rule div_nat_eqI) (use c xy in auto)
  have m: "c mod 64 = y"
    using c xy by simp
  show ?thesis using xy c d m by auto
qed

lemma enc3:
  fixes a b d c :: nat
  assumes "0xE0 \<le> a" "a < 0xF0"
    and "(if a = 0xE0 then 0xA0 else 0x80) \<le> b" "b \<le> (if a = 0xED then 0x9F else 0xBF)"
    and "0x80 \<le> d" "d \<le> 0xBF"
    and "c = (a mod 16) * 4096 + (b mod 64) * 64 + d mod 64"
  shows "0x7FF < c \<and> c \<le> 0xFFFF \<and> \<not> (0xD800 \<le> c \<and> c \<le> 0xDFFF) \<and>
         0xE0 + c div 4096 = a \<and> 0x80 + (c div 64) mod 64 = b \<and> 0x80 + c mod 64 = d"
proof -
  define x where "x = a - 224"
  define y where "y = b - 128"
  define z where "z = d - 128"
  have b80: "0x80 \<le> b" "b \<le> 0xBF" using assms(3,4) by (auto split: if_splits)
  have xyz: "a = 224 + x" "b = 128 + y" "d = 128 + z" "x < 16" "y < 64" "z < 64"
    using assms(1,2,5,6) b80 by (simp_all add: x_def y_def z_def)
  have y0: "x = 0 \<longrightarrow> 32 \<le> y" using assms(3) xyz by (auto split: if_splits)
  have y13: "x = 13 \<longrightarrow> y < 32" using assms(4) xyz by (auto split: if_splits)
  have a: "a mod 16 = x" using mod_offset [of x 16 14] xyz by simp
  have b: "b mod 64 = y" using mod_offset [of y 64 2] xyz by simp
  have d: "d mod 64 = z" using mod_offset [of z 64 2] xyz by simp
  have c: "c = x * 4096 + y * 64 + z" using assms a b d by simp
  have d1: "c div 4096 = x"
    by (rule div_nat_eqI) (use c xyz in auto)
  have d2: "c div 64 = x * 64 + y"
    by (rule div_nat_eqI) (use c xyz in auto)
  have m2: "(c div 64) mod 64 = y"
    unfolding d2 using xyz by simp
  have m: "c mod 64 = z"
    using d2 c by (simp add: modulo_nat_def)
  have lo: "0x7FF < c" using c y0 xyz by (cases "x = 0") auto
  have sur: "\<not> (0xD800 \<le> c \<and> c \<le> 0xDFFF)"
  proof -
    consider "x < 13" | "x = 13" | "13 < x" by linarith
    then show ?thesis
      using c xyz y13 by cases auto
  qed
  have hi: "c \<le> 0xFFFF" using c xyz by auto
  show ?thesis using lo hi sur d1 m2 m xyz by simp
qed

lemma enc4:
  fixes a b d e c :: nat
  assumes "0xF0 \<le> a" "a \<le> 0xF4"
    and "(if a = 0xF0 then 0x90 else 0x80) \<le> b" "b \<le> (if a = 0xF4 then 0x8F else 0xBF)"
    and "0x80 \<le> d" "d \<le> 0xBF" "0x80 \<le> e" "e \<le> 0xBF"
    and "c = (a mod 8) * 262144 + (b mod 64) * 4096 + (d mod 64) * 64 + e mod 64"
  shows "0xFFFF < c \<and> c \<le> 0x10FFFF \<and>
         0xF0 + c div 262144 = a \<and> 0x80 + (c div 4096) mod 64 = b \<and>
         0x80 + (c div 64) mod 64 = d \<and> 0x80 + c mod 64 = e"
proof -
  define x where "x = a - 240"
  define y where "y = b - 128"
  define z where "z = d - 128"
  define u where "u = e - 128"
  have b80: "0x80 \<le> b" "b \<le> 0xBF" using assms(3,4) by (auto split: if_splits)
  have xyz: "a = 240 + x" "b = 128 + y" "d = 128 + z" "e = 128 + u"
    "x \<le> 4" "y < 64" "z < 64" "u < 64"
    using assms(1,2,5-8) b80 by (simp_all add: x_def y_def z_def u_def)
  have y0: "x = 0 \<longrightarrow> 16 \<le> y" using assms(3) xyz by (auto split: if_splits)
  have y4: "x = 4 \<longrightarrow> y < 16" using assms(4) xyz by (auto split: if_splits)
  have a: "a mod 8 = x" using mod_offset [of x 8 30] xyz by simp
  have b: "b mod 64 = y" using mod_offset [of y 64 2] xyz by simp
  have d: "d mod 64 = z" using mod_offset [of z 64 2] xyz by simp
  have e: "e mod 64 = u" using mod_offset [of u 64 2] xyz by simp
  have c: "c = x * 262144 + y * 4096 + z * 64 + u" using assms a b d e by simp
  have d1: "c div 262144 = x"
    by (rule div_nat_eqI) (use c xyz in auto)
  have d2: "c div 4096 = x * 64 + y"
    by (rule div_nat_eqI) (use c xyz in auto)
  have d3: "c div 64 = (x * 64 + y) * 64 + z"
    by (rule div_nat_eqI) (use c xyz in auto)
  have m2: "(c div 4096) mod 64 = y"
    unfolding d2 using xyz by simp
  have m3: "(c div 64) mod 64 = z"
    unfolding d3 by (rule mod_offset) (rule xyz)
  have m: "c mod 64 = u"
    using d3 c by (simp add: modulo_nat_def)
  have lo: "0xFFFF < c" using c y0 xyz by (cases "x = 0") auto
  have hi: "c \<le> 0x10FFFF"
  proof (cases "x = 4")
    case True
    then show ?thesis using c xyz y4 by auto
  next
    case False
    then have "x \<le> 3" using xyz by auto
    then show ?thesis using c xyz by auto
  qed
  show ?thesis using lo hi d1 m2 m3 m xyz by simp
qed

lemma take_nths:
  "1 \<le> length s \<Longrightarrow> take 1 s = [s ! 0]"
  "2 \<le> length s \<Longrightarrow> take 2 s = [s ! 0, s ! 1]"
  "3 \<le> length s \<Longrightarrow> take 3 s = [s ! 0, s ! 1, s ! 2]"
  "4 \<le> length s \<Longrightarrow> take 4 s = [s ! 0, s ! 1, s ! 2, s ! 3]"
  by (cases s; cases "tl s"; cases "tl (tl s)"; cases "tl (tl (tl s))"; simp; fail)+

lemma char_of_eqI: "n = (of_char c :: nat) \<Longrightarrow> char_of n = c"
  by simp

lemma EncodeRune_DecodeRune:
  assumes dec: "DecodeRuneInString s = (c, w)" and ne: "s \<noteq> []"
    and ok: "\<not> (c = RuneError \<and> w = 1)"
  shows "EncodeRune c = take w s \<and> 0 < w \<and> w \<le> length s"
proof -
  from ne have len1: "1 \<le> length s" by (cases s) auto
  from DecodeRune_cases [OF dec ne] ok
  consider
    (one) "w = 1" "of_char (s ! 0) < (0x80::nat)" "c = of_char (s ! 0)"
  | (two) "w = 2" "2 \<le> length s" "0xC2 \<le> (of_char (s ! 0) :: nat)" "(of_char (s ! 0) :: nat) < 0xE0"
        "0x80 \<le> (of_char (s ! 1) :: nat)" "(of_char (s ! 1) :: nat) \<le> 0xBF"
        "c = (of_char (s ! 0) mod 32) * 64 + of_char (s ! 1) mod 64"
  | (three) "w = 3" "3 \<le> length s" "0xE0 \<le> (of_char (s ! 0) :: nat)" "(of_char (s ! 0) :: nat) < 0xF0"
        "(if of_char (s ! 0) = (0xE0::nat) then 0xA0 else 0x80) \<le> (of_char (s ! 1) :: nat)"
        "(of_char (s ! 1) :: nat) \<le> (if of_char (s ! 0) = (0xED::nat) then 0x9F else 0xBF)"
        "0x80 \<le> (of_char (s ! 2) :: nat)" "(of_char (s ! 2) :: nat) \<le> 0xBF"
        "c = (of_char (s ! 0) mod 16) * 4096 + (of_char (s ! 1) mod 64) * 64 + of_char (s ! 2) mod 64"
  | (four) "w = 4" "4 \<le> length s" "0xF0 \<le> (of_char (s ! 0) :: nat)" "(of_char (s ! 0) :: nat) \<le> 0xF4"
        "(if of_char (s ! 0) = (0xF0::nat) then 0x90 else 0x80) \<le> (of_char (s ! 1) :: nat)"
        "(of_char (s ! 1) :: nat) \<le> (if of_char (s ! 0) = (0xF4::nat) then 0x8F else 0xBF)"
        "0x80 \<le> (of_char (s ! 2) :: nat)" "(of_char (s ! 2) :: nat) \<le> 0xBF"
        "0x80 \<le> (of_char (s ! 3) :: nat)" "(of_char (s ! 3) :: nat) \<le> 0xBF"
        "c = (of_char (s ! 0) mod 8) * 262144 + (of_char (s ! 1) mod 64) * 4096 +
            (of_char (s ! 2) mod 64) * 64 + of_char (s ! 3) mod 64"
    by blast
  then show ?thesis
  proof cases
    case one
    then show ?thesis using ne by (cases s) (simp_all add: EncodeRune_def)
  next
    case two
    from enc2 [OF two(3-7)] two(1,2) show ?thesis
      by (simp add: EncodeRune_def take_nths char_of_eqI)
  next
    case three
    from enc3 [OF three(3-9)] three(1,2) show ?thesis
      by (auto simp: EncodeRune_def take_nths char_of_eqI Let_def)
  next
    case four
    from enc4 [OF four(3-11)] four(1,2) show ?thesis
      by (auto simp: EncodeRune_def take_nths char_of_eqI Let_def)
  qed
qed

lemma rune_at_DecodeRune:
  assumes "DecodeRuneInString s = (c, w)" and "s \<noteq> []" and "\<not> (c = RuneError \<and> w = 1)"
  shows "rune_at s c w"
proof -
  from assms(2) have "1 \<le> length s" by (cases s) auto
  with DecodeRune_cases [OF assms(1,2)] assms(3) show ?thesis
    unfolding rune_at_def by blast
qed

lemma DecodeRune_rune_at:
  assumes "rune_at s c w"
  shows "DecodeRuneInString s = (c, w)"
proof -
  define a where "a = (of_char (s ! 0) :: nat)"
  define b where "b = (of_char (s ! 1) :: nat)"
  show ?thesis
    using assms unfolding rune_at_def DecodeRuneInString_def Let_def a_def [symmetric] b_def [symmetric]
    by (elim disjE conjE) (auto simp: first_def acceptRanges_def split: if_splits)
qed

lemma rune_at_prefix:
  assumes "rune_at s c w"
  shows "rune_at (take w s @ y) c w"
  using assms unfolding rune_at_def
  by (elim disjE conjE) (simp_all add: nth_append)

lemma DecodeRune_prefix:
  assumes "DecodeRuneInString s = (c, w)" and "s \<noteq> []" and "\<not> (c = RuneError \<and> w = 1)"
  shows "DecodeRuneInString (take w s @ y) = (c, w)"
  by (rule DecodeRune_rune_at) (rule rune_at_prefix, rule rune_at_DecodeRune, fact+)

subsection \<open>Decoding what was encoded\<close>

lemma hexval_hex: "k < 16 \<Longrightarrow> hexval (hex ! k) = Some k"
proof -
  assume "k < 16"
  then have "k = 0 \<or> k = 1 \<or> k = 2 \<or> k = 3 \<or> k = 4 \<or> k = 5 \<or> k = 6 \<or> k = 7 \<or>
    k = 8 \<or> k = 9 \<or> k = 10 \<or> k = 11 \<or> k = 12 \<or> k = 13 \<or> k = 14 \<or> k = 15"
    by arith
  then show ?thesis
    by (elim disjE) (simp_all add: hex_def hexval_def)
qed

lemma getu4_00:
  assumes "n < 256"
  shows "getu4 (CHR 0x5C # CHR ''u'' # CHR ''0'' # CHR ''0'' # hex ! (n div 16) # hex ! (n mod 16) # x) = Some n"
proof -
  have "n div 16 < 16" using assms by simp
  then show ?thesis
    by (simp add: hexval_hex) (simp add: hexval_def)
qed

lemma unquote_step_safe:
  assumes "(of_char b :: nat) < RuneSelf" "htmlSafeSet b"
  shows "b \<noteq> CHR 0x22 \<and> unquote_step b x = Some ([b], x)"
  using assms by (auto simp: htmlSafeSet_def unquote_step_def RuneSelf_def)

lemma unquote_step_escape:
  assumes "(of_char b :: nat) < RuneSelf" "\<not> htmlSafeSet b"
  shows "\<exists>t. escape_byte b = CHR 0x5C # t \<and> unquote_step (CHR 0x5C) (t @ x) = Some ([b], x)"
proof -
  have n: "(of_char b :: nat) < 256" using assms(1) by (simp add: RuneSelf_def)
  consider "b = CHR 0x5C \<or> b = CHR 0x22" | "b = CHR 0x0A" | "b = CHR 0x0D" | "b = CHR 0x09"
    | "b \<noteq> CHR 0x5C" "b \<noteq> CHR 0x22" "b \<noteq> CHR 0x0A" "b \<noteq> CHR 0x0D" "b \<noteq> CHR 0x09"
    by blast
  then show ?thesis
  proof cases
    case 5
    have enc: "EncodeRune (of_char b) = [b]"
      using assms(1) by (simp add: EncodeRune_def RuneSelf_def)
    have sur: "\<not> IsSurrogate (of_char b)"
      using assms(1) by (simp add: IsSurrogate_def RuneSelf_def)
    show ?thesis
      using 5 getu4_00 [OF n] enc sur
      by (simp add: escape_byte_def unquote_step_def)
  qed (auto simp: escape_byte_def unquote_step_def)
qed

lemma hex_8: "hex ! 8 = CHR ''8''" "hex ! 9 = CHR ''9''"
  by (simp_all add: hex_def)

lemma unquote_step_2028:
  assumes "c = 0x2028 \<or> c = 0x2029"
  shows "unquote_step (CHR 0x5C) (''u202'' @ [hex ! (c mod 16)] @ x) = Some (EncodeRune c, x)"
  using assms
  by (auto simp: unquote_step_def hex_8 hexval_def IsSurrogate_def)

lemma unquote_step_rune:
  assumes dec: "DecodeRuneInString (b # s) = (c, w)" and ok: "\<not> (c = RuneError \<and> w = 1)"
    and hi: "\<not> (of_char b :: nat) < RuneSelf"
  shows "b \<noteq> CHR 0x22 \<and> b \<noteq> CHR 0x5C \<and>
         unquote_step b (take (w - 1) s @ x) = Some (b # take (w - 1) s, x) \<and>
         EncodeRune c = b # take (w - 1) s \<and> 0 < w"
proof -
  from EncodeRune_DecodeRune [OF dec _ ok]
  have e: "EncodeRune c = take w (b # s)" and w: "0 < w" "w \<le> length (b # s)" by auto
  from w have tk: "take w (b # s) = b # take (w - 1) s" by (cases w) auto
  from w have len: "length (take (w - 1) s) = w - 1" by auto
  from DecodeRune_prefix [OF dec _ ok, of x] tk
  have d: "DecodeRuneInString (b # take (w - 1) s @ x) = (c, w)" by simp
  have nq: "b \<noteq> CHR 0x22" "b \<noteq> CHR 0x5C" "\<not> (of_char b :: nat) < 0x20"
    using hi by (auto simp: RuneSelf_def)
  show ?thesis
    using d e tk nq hi w len by (simp add: unquote_step_def)
qed

lemma unquote_encode_runes:
  "ValidString s \<Longrightarrow> unquote_from (encode_runes s @ CHR 0x22 # r) = Some (s, r)"
proof (induction s rule: encode_runes.induct)
  case 1
  show ?case by simp
next
  case (2 b s)
  show ?case
  proof (cases "(of_char b :: nat) < RuneSelf")
    case True
    with "2.prems" have v: "ValidString s" by simp
    show ?thesis
    proof (cases "htmlSafeSet b")
      case safe: True
      from "2.IH"(1) [OF True v] unquote_step_safe [OF True safe]
      show ?thesis using True safe by simp
    next
      case unsafe: False
      from unquote_step_escape [OF True unsafe]
      obtain t where t: "escape_byte b = CHR 0x5C # t"
        "unquote_step (CHR 0x5C) (t @ encode_runes s @ CHR 0x22 # r) = Some ([b], encode_runes s @ CHR 0x22 # r)"
        by blast
      from "2.IH"(1) [OF True v] t show ?thesis using True unsafe by simp
    qed
  next
    case False
    obtain c w where dec: "DecodeRuneInString (b # s) = (c, w)" by (metis prod.exhaust)
    with "2.prems" False have ok: "\<not> (c = RuneError \<and> w = 1)"
      and v: "ValidString (drop (w - 1) s)" by auto
    note st = unquote_step_rune [OF dec ok False]
    have ih: "unquote_from (encode_runes (drop (w - 1) s) @ CHR 0x22 # r) = Some (drop (w - 1) s, r)"
    proof (cases "c = 0x2028 \<or> c = 0x2029")
      case True
      from "2.IH"(3) [OF False dec [symmetric] ok True v] show ?thesis .
    next
      case nb: False
      from "2.IH"(4) [OF False dec [symmetric] ok nb v] show ?thesis .
    qed
    show ?thesis
    proof (cases "c = 0x2028 \<or> c = 0x2029")
      case True
      from unquote_step_2028 [OF True, of "encode_runes (drop (w - 1) s) @ CHR 0x22 # r"] st ih
      show ?thesis using False dec ok True by auto
    next
      case nb: False
      from st ih show ?thesis using False dec ok nb by auto
    qed
  qed
qed

lemma decode_encode_string:
  "ValidString s \<Longrightarrow> decode_string (encode_string s @ r) = Some (s, r)"
  by (simp add: decode_string_def encode_string_def unquote_encode_runes)

lemma encode_string_Cons: "\<exists>t. encode_string s = CHR 0x22 # t"
  by (simp add: encode_string_def)

lemma decode_elems_encode:
  "list_all ValidString (v # vs) \<Longrightarrow>
   decode_elems (join_comma (map encode_string (v # vs)) @ CHR '']'' # r) = Some (v # vs, r)"
proof (induction vs arbitrary: v)
  case Nil
  then show ?case
    by (subst decode_elems.simps) (simp add: decode_encode_string)
next
  case (Cons u us)
  from Cons.prems have v: "ValidString v" and rest: "list_all ValidString (u # us)" by auto
  have "join_comma (map encode_string (v # u # us)) @ CHR '']'' # r =
        encode_string v @ (CHR '','' # join_comma (map encode_string (u # us)) @ CHR '']'' # r)"
    by simp
  then show ?case
    using Cons.IH [OF rest] decode_encode_string [OF v]
    by (subst decode_elems.simps) simp
qed

lemma decode_encode_slice:
  "list_all ValidString vs \<Longrightarrow> decode_slice (encode_slice vs @ r) = Some (vs, r)"
proof (cases vs)
  case Nil
  then show ?thesis by (simp add: decode_slice_def encode_slice_def)
next
  case (Cons v us)
  assume "list_all ValidString vs"
  with Cons have "list_all ValidString (v # us)" by simp
  from decode_elems_encode [OF this, of r] obtain t where
    "join_comma (map encode_string (v # us)) = CHR 0x22 # t"
    using encode_string_Cons [of v] by (cases us) auto
  with decode_elems_encode [OF \<open>list_all ValidString (v # us)\<close>, of r] Cons
  show ?thesis by (simp add: decode_slice_def encode_slice_def)
qed

lemma encode_member_Cons: "\<exists>t. encode_member kv = CHR 0x22 # t"
  by (cases kv) (simp add: encode_member_def encode_string_def)

lemma decode_members_encode:
  "list_all (\<lambda>(k, vs). ValidString k \<and> list_all ValidString vs) (kv # kvs) \<Longrightarrow>
   decode_members h (join_comma (map encode_member (kv # kvs)) @ CHR ''}'' # r) =
     Some (fold (\<lambda>(k, vs). fmupd k vs) (kv # kvs) h, r)"
proof (induction kvs arbitrary: kv h)
  case Nil
  obtain k vs where kv: "kv = (k, vs)" by (cases kv)
  with Nil have v: "ValidString k" "list_all ValidString vs" by auto
  have "join_comma (map encode_member [kv]) @ CHR ''}'' # r =
        encode_string k @ (CHR '':'' # encode_slice vs @ CHR ''}'' # r)"
    by (simp add: kv encode_member_def)
  then show ?case
    using decode_encode_string [OF v(1)] decode_encode_slice [OF v(2)]
    by (subst decode_members.simps) (simp add: kv)
next
  case (Cons u us)
  obtain k vs where kv: "kv = (k, vs)" by (cases kv)
  with Cons.prems have v: "ValidString k" "list_all ValidString vs"
    and rest: "list_all (\<lambda>(k, vs). ValidString k \<and> list_all ValidString vs) (u # us)" by auto
  have "join_comma (map encode_member (kv # u # us)) @ CHR ''}'' # r =
        encode_string k @ (CHR '':'' # encode_slice vs @
          (CHR '','' # join_comma (map encode_member (u # us)) @ CHR ''}'' # r))"
    by (simp add: kv encode_member_def)
  then show ?case
    using decode_encode_string [OF v(1)] decode_encode_slice [OF v(2)]
      Cons.IH [OF rest, of "fmupd k vs h"]
    by (subst decode_members.simps) (simp add: kv)
qed

lemma fmlookup_fold_fmupd:
  "fmlookup (fold (\<lambda>(k, vs). fmupd k vs) kvs h) x =
     (case map_of (rev kvs) x of None \<Rightarrow> fmlookup h x | Some v \<Rightarrow> Some v)"
  by (induction kvs arbitrary: h) (auto split: option.splits)

lemma map_of_rev_distinct:
  "distinct (map fst xs) \<Longrightarrow> map_of (rev xs) = map_of xs"
proof (induction xs)
  case Nil
  show ?case by simp
next
  case (Cons a xs)
  then have ih: "map_of (rev xs) = map_of xs" and fresh: "map_of xs (fst a) = None"
    by (auto simp: map_of_eq_None_iff)
  show ?case
  proof (rule ext)
    fix k
    show "map_of (rev (a # xs)) k = map_of (a # xs) k"
      using ih fresh by (cases a) (auto simp: map_add_def split: option.splits)
  qed
qed

lemma fold_fmupd_sorted_list:
  "fold (\<lambda>(k, vs). fmupd k vs) (sorted_list_of_fmap m) fmempty = m"
proof (rule fmap_ext)
  fix x
  have d: "distinct (map fst (sorted_list_of_fmap m))"
    by (simp add: sorted_list_of_fmap_def comp_def sorted_list_of_fset.rep_eq)
  have "map_of (rev (sorted_list_of_fmap m)) = map_of (sorted_list_of_fmap m)"
    using d by (rule map_of_rev_distinct)
  then show "fmlookup (fold (\<lambda>(k, vs). fmupd k vs) (sorted_list_of_fmap m) fmempty) x = fmlookup m x"
    by (simp add: fmlookup_fold_fmupd split: option.splits)
qed

lemma decode_encode_map:
  assumes "list_all (\<lambda>(k, vs). ValidString k \<and> list_all ValidString vs) (sorted_list_of_fmap m)"
  shows "decode_map (encode_map m @ r) = Some (m, r)"
proof (cases "sorted_list_of_fmap m")
  case Nil
  then have "fold (\<lambda>(k, vs). fmupd k vs) (sorted_list_of_fmap m) fmempty = fmempty" by simp
  then have "m = fmempty" by (simp add: fold_fmupd_sorted_list)
  with Nil show ?thesis by (simp add: decode_map_def encode_map_def)
next
  case (Cons kv kvs)
  from assms Cons
  have v: "list_all (\<lambda>(k, vs). ValidString k \<and> list_all ValidString vs) (kv # kvs)" by simp
  obtain t where t: "join_comma (map encode_member (kv # kvs)) = CHR 0x22 # t"
    using encode_member_Cons [of kv] by (cases kvs) auto
  have e: "encode_map m = CHR ''{'' # join_comma (map encode_member (kv # kvs)) @ ''}''"
    by (simp add: encode_map_def Cons encode_member_def)
  have "fold (\<lambda>(k, vs). fmupd k vs) (kv # kvs) fmempty = m"
    using fold_fmupd_sorted_list [of m] Cons by simp
  with decode_members_encode [OF v, of fmempty r] t e
  show ?thesis by (simp add: decode_map_def)
qed

lemma ValidString_keys:
  "ValidString ''id''" "ValidString ''url''" "ValidString ''body''" "ValidString ''header''"
  "ValidString ''method''"
  by (simp_all add: RuneSelf_def)

lemma decode_fields_header:
  assumes "list_all (\<lambda>(k, vs). ValidString k \<and> list_all ValidString vs) (sorted_list_of_fmap m)"
  shows "decode_fields v (encode_string ''header'' @ CHR '':'' # encode_map m @ CHR '','' # rest) =
           decode_fields (v\<lparr>ReqHeader := m\<rparr>) rest"
  using decode_encode_map [OF assms, of "CHR '','' # rest"]
    decode_encode_string [OF ValidString_keys(4)]
  by (subst decode_fields.simps) (simp add: decode_field_def)

text \<open>
  The round trip, with the body singled out: whatever the body's literal decodes to
  replaces the body; every other field comes back as it was.
\<close>

lemma json_decode_marshal:
  assumes v: "ValidString (ID v)" "ValidString (ReqURL v)" "ValidString (ReqMethod v)"
    and h: "list_all (\<lambda>(k, vs). ValidString k \<and> list_all ValidString vs)
              (sorted_list_of_fmap (ReqHeader v))"
    and b: "\<And>r. decode_string (encode_string (ReqBody v) @ r) = Some (b', r)"
  shows "json_Unmarshal (fst (json_Marshal v)) = Some (v\<lparr>ReqBody := b'\<rparr>)"
proof -
  let ?zero = "\<lparr>ID = [], ReqURL = [], ReqBody = [], ReqHeader = fmempty, ReqMethod = []\<rparr>"
  define body where "body =
      encode_string ''id'' @ CHR '':'' # encode_string (ID v) @ CHR '','' #
      encode_string ''url'' @ CHR '':'' # encode_string (ReqURL v) @ CHR '','' #
      encode_string ''body'' @ CHR '':'' # encode_string (ReqBody v) @ CHR '','' #
      encode_string ''header'' @ CHR '':'' # encode_map (ReqHeader v) @ CHR '','' #
      encode_string ''method'' @ CHR '':'' # encode_string (ReqMethod v) @ CHR ''}'' # []"
  have m: "fst (json_Marshal v) = CHR ''{'' # body"
    by (simp add: json_Marshal_def body_def)
  have q: "\<exists>t. body = CHR 0x22 # t"
    by (simp add: body_def encode_string_def)
  have f1: "decode_field ''id'' w (encode_string (ID v) @ r) = Some (w\<lparr>ID := ID v\<rparr>, r)" for w r
    by (simp add: decode_field_def decode_encode_string v)
  have f2: "decode_field ''url'' w (encode_string (ReqURL v) @ r) = Some (w\<lparr>ReqURL := ReqURL v\<rparr>, r)" for w r
    by (simp add: decode_field_def decode_encode_string v)
  have f3: "decode_field ''body'' w (encode_string (ReqBody v) @ r) = Some (w\<lparr>ReqBody := b'\<rparr>, r)" for w r
    by (simp add: decode_field_def b)
  have f5: "decode_field ''method'' w (encode_string (ReqMethod v) @ r) = Some (w\<lparr>ReqMethod := ReqMethod v\<rparr>, r)" for w r
    by (simp add: decode_field_def decode_encode_string v)
  have s1: "decode_fields w (encode_string ''id'' @ CHR '':'' # encode_string (ID v) @ CHR '','' # rest) =
      decode_fields (w\<lparr>ID := ID v\<rparr>) rest" for w rest
    using f1 [of w "CHR '','' # rest"] decode_encode_string [OF ValidString_keys(1)]
    by (subst decode_fields.simps) simp
  have s2: "decode_fields w (encode_string ''url'' @ CHR '':'' # encode_string (ReqURL v) @ CHR '','' # rest) =
      decode_fields (w\<lparr>ReqURL := ReqURL v\<rparr>) rest" for w rest
    using f2 [of w "CHR '','' # rest"] decode_encode_string [OF ValidString_keys(2)]
    by (subst decode_fields.simps) simp
  have s3: "decode_fields w (encode_string ''body'' @ CHR '':'' # encode_string (ReqBody v) @ CHR '','' # rest) =
      decode_fields (w\<lparr>ReqBody := b'\<rparr>) rest" for w rest
    using f3 [of w "CHR '','' # rest"] decode_encode_string [OF ValidString_keys(3)]
    by (subst decode_fields.simps) simp
  have s5: "decode_fields w (encode_string ''method'' @ CHR '':'' # encode_string (ReqMethod v) @ [CHR ''}'']) =
      Some (w\<lparr>ReqMethod := ReqMethod v\<rparr>, [])" for w
    using f5 [of w "[CHR ''}'']"] decode_encode_string [OF ValidString_keys(5)]
    by (subst decode_fields.simps) simp
  have "decode_fields ?zero body =
        Some (?zero\<lparr>ID := ID v, ReqURL := ReqURL v, ReqBody := b',
                    ReqHeader := ReqHeader v, ReqMethod := ReqMethod v\<rparr>, [])"
    unfolding body_def
    by (simp only: s1 s2 s3 decode_fields_header [OF h] s5)
  then have "decode_fields ?zero body = Some (v\<lparr>ReqBody := b'\<rparr>, [])" by simp
  with m q show ?thesis
    by (auto simp: json_Unmarshal_def)
qed

lemma json_roundtrip:
  assumes "valid_requestData v"
  shows "json_Unmarshal (fst (json_Marshal v)) = Some v"
  using assms json_decode_marshal [of v "ReqBody v"]
  by (simp add: valid_requestData_def decode_encode_string)

subsection \<open>The example envelope\<close>

lemma example_header_sorted:
  "sorted_list_of_fmap (fmap_of_list [(''X-Tag'', [''b'', ''a'', ''b'']), (''Accept'', [''*/*''])]) =
     [(''Accept'', [''*/*'']), (''X-Tag'', [''b'', ''a'', ''b''])]"
  by code_simp

lemma DecodeRune_examples:
  "DecodeRuneInString (CHR 0xFF # s) = (RuneError, 1)"
  "DecodeRuneInString (CHR 0xFE # s) = (RuneError, 1)"
  "DecodeRuneInString [CHR 0xEF, CHR 0xBF, CHR 0xBD] = (RuneError, 3)"
  "DecodeRuneInString [CHR 0xC3, CHR 0xA9] = (0xE9, 2)"
  by (simp_all add: DecodeRuneInString_def first_def acceptRanges_def RuneError_def)

lemma valid_example_fields:
  "ValidString (ID (example_envelope b))" "ValidString (ReqURL (example_envelope b))"
  "ValidString (ReqMethod (example_envelope b))"
  "list_all (\<lambda>(k, vs). ValidString k \<and> list_all ValidString vs)
     (sorted_list_of_fmap (ReqHeader (example_envelope b)))"
  by (simp_all add: example_envelope_def example_header_sorted RuneSelf_def
      del: list_all_sorted_list fmap_of_list_simps)

lemma valid_example_envelope:
  "valid_requestData (example_envelope [CHR 0xC3, CHR 0xA9])"
proof -
  have "ValidString (ReqBody (example_envelope [CHR 0xC3, CHR 0xA9]))"
    by (simp add: example_envelope_def RuneSelf_def DecodeRune_examples RuneError_def)
  with valid_example_fields [of "[CHR 0xC3, CHR 0xA9]"] show ?thesis
    unfolding valid_requestData_def by blast
qed

lemma decode_replacement:
  "decode_string (encode_string [CHR 0xFF] @ r) = Some ([CHR 0xEF, CHR 0xBF, CHR 0xBD], r)"
  by (auto simp: decode_string_def encode_string_def RuneSelf_def DecodeRune_examples
      unquote_step_def hexval_def IsSurrogate_def EncodeRune_def RuneError_def
      intro!: char_of_eqI)

lemma encode_runes_json_plain: "json_plain s \<Longrightarrow> encode_runes s = s"
  by (induction s) (simp_all add: json_plain_def htmlSafeSet_def RuneSelf_def)

lemma encode_string_id: "encode_string ''id'' = CHR 0x22 # ''id'' @ [CHR 0x22]"
  by (simp add: encode_string_def htmlSafeSet_def RuneSelf_def)

section \<open>The claims\<close>

text \<open>
  C1. With a request size limit of \<open>N\<close> bytes, a request whose body is exactly \<open>N\<close>
  bytes passes the check and is processed: its entry is appended to the stream, and the
  response is 202 when the broker accepts the entry (500 when it does not). A request
  whose body is longer than \<open>N\<close> bytes is answered with 500 and no command is sent to
  the broker.
\<close>

theorem size_limit_enforcement:
  assumes "sint (RequestSizeLimit (env g)) = int N" and "status w = None"
  shows
    "(length (pending (Body r)) = N \<and> fault (Body r) = None \<longrightarrow>
        xadds (snd (handleRequest U g w r)) = xadds g @ [entry U g r] \<and>
        status (fst (handleRequest U g w r)) =
          Some (if answer U g r = None then StatusAccepted else StatusInternalServerError)) \<and>
     (N < length (pending (Body r)) \<longrightarrow>
        status (fst (handleRequest U g w r)) = Some StatusInternalServerError \<and>
        xadds (snd (handleRequest U g w r)) = xadds g)"
proof (intro conjI impI)
  assume a: "length (pending (Body r)) = N \<and> fault (Body r) = None"
  with assms have fits: "int (length (pending (Body r))) \<le> max 0 (sint (RequestSizeLimit (env g)))"
    by simp
  from a have nf: "fault (Body r) = None" by simp
  show "xadds (snd (handleRequest U g w r)) = xadds g @ [entry U g r]"
    by (simp add: handleRequest_read [OF fits nf] Println_def split: option.splits)
  show "status (fst (handleRequest U g w r)) =
          Some (if answer U g r = None then StatusAccepted else StatusInternalServerError)"
    using assms(2)
    by (simp add: handleRequest_read [OF fits nf] WriteHeader_def split: option.splits)
next
  assume "N < length (pending (Body r))"
  with assms have big: "max 0 (sint (RequestSizeLimit (env g))) < int (length (pending (Body r)))"
    by simp
  show "status (fst (handleRequest U g w r)) = Some StatusInternalServerError"
    using assms(2) by (simp add: handleRequest_oversized [OF big] WriteHeader_def requestTooLarge_def)
  show "xadds (snd (handleRequest U g w r)) = xadds g"
    by (simp add: handleRequest_oversized [OF big] Println_def)
qed

theorem size_limit_enforcement_witness:
  "sint (RequestSizeLimit (env (example_world None))) = int 3 \<and>
   status newResponse = None \<and>
   length (pending (Body (example_request [] ''abc''))) = 3 \<and>
   fault (Body (example_request [] ''abc'')) = None \<and>
   xadds (snd (handleRequest example_NewFromTime (example_world None) newResponse
                 (example_request [] ''abc''))) =
     xadds (example_world None) @
       [entry example_NewFromTime (example_world None) (example_request [] ''abc'')] \<and>
   status (fst (handleRequest example_NewFromTime (example_world None) newResponse
                  (example_request [] ''abc''))) = Some StatusAccepted \<and>
   3 < length (pending (Body (example_request [] ''abcd''))) \<and>
   status (fst (handleRequest example_NewFromTime (example_world None) newResponse
                  (example_request [] ''abcd''))) = Some StatusInternalServerError \<and>
   xadds (snd (handleRequest example_NewFromTime (example_world None) newResponse
                 (example_request [] ''abcd''))) = xadds (example_world None)"
proof -
  have h1: "sint (RequestSizeLimit (env (example_world None))) = int 3"
    by (simp add: example_world_def example_env_def)
  have h2: "status newResponse = None" by (simp add: newResponse_def)
  have a: "answer example_NewFromTime (example_world None) (example_request [] ''abc'') = None"
    by (simp add: answer_def example_world_def)
  show ?thesis
    using size_limit_enforcement [OF h1 h2, of "example_request [] ''abc''" example_NewFromTime]
      size_limit_enforcement [OF h1 h2, of "example_request [] ''abcd''" example_NewFromTime]
      h1 h2 a
    by (simp add: example_request_def)
qed

text \<open>
  C2, as amended. For every envelope whose strings are valid UTF-8, serialising never
  fails and deserialising the result gives the envelope back: identifier, url, body,
  method and the header map with every value list in its order.
\<close>

theorem serialization_roundtrip:
  assumes "valid_requestData v"
  shows "snd (json_Marshal v) = None \<and> json_Unmarshal (fst (json_Marshal v)) = Some v"
  using json_roundtrip [OF assms] by (simp add: json_Marshal_def)

theorem serialization_roundtrip_witness:
  "valid_requestData (example_envelope [CHR 0xC3, CHR 0xA9]) \<and>
   snd (json_Marshal (example_envelope [CHR 0xC3, CHR 0xA9])) = None \<and>
   json_Unmarshal (fst (json_Marshal (example_envelope [CHR 0xC3, CHR 0xA9]))) =
     Some (example_envelope [CHR 0xC3, CHR 0xA9])"
  using serialization_roundtrip [OF valid_example_envelope] valid_example_envelope
  by simp

text \<open>
  C2 as stated fails on a body that is not UTF-8: \<^verbatim>\<open>Marshal\<close> writes the byte
  \<open>0xFF\<close> as the escape of U+FFFD, and the body that comes back is the three bytes
  \<open>EF BF BD\<close>. No decoder could do better: the bodies \<open>0xFF\<close> and \<open>0xFE\<close> are
  serialised to the same text.
\<close>

theorem non_utf8_body_counterexample:
  "json_Unmarshal (fst (json_Marshal (example_envelope [CHR 0xFF]))) =
     Some (example_envelope [CHR 0xEF, CHR 0xBF, CHR 0xBD]) \<and>
   ReqBody (example_envelope [CHR 0xEF, CHR 0xBF, CHR 0xBD]) \<noteq>
     ReqBody (example_envelope [CHR 0xFF]) \<and>
   fst (json_Marshal (example_envelope [CHR 0xFF])) =
     fst (json_Marshal (example_envelope [CHR 0xFE])) \<and>
   ReqBody (example_envelope [CHR 0xFF]) \<noteq> ReqBody (example_envelope [CHR 0xFE])"
proof -
  have "ReqBody (example_envelope [CHR 0xFF]) = [CHR 0xFF]"
    by (simp add: example_envelope_def)
  with json_decode_marshal [OF valid_example_fields, of "[CHR 0xFF]" "[CHR 0xEF, CHR 0xBF, CHR 0xBD]"]
    decode_replacement
  have returned: "json_Unmarshal (fst (json_Marshal (example_envelope [CHR 0xFF]))) =
     Some (example_envelope [CHR 0xEF, CHR 0xBF, CHR 0xBD])"
    by (simp add: example_envelope_def)
  have same: "fst (json_Marshal (example_envelope [CHR 0xFF])) =
     fst (json_Marshal (example_envelope [CHR 0xFE]))"
    by (simp add: json_Marshal_def example_envelope_def encode_string_def RuneSelf_def
        DecodeRune_examples RuneError_def)
  show ?thesis
    using returned same by (simp add: example_envelope_def)
qed

text \<open>
  C3, as amended. When a certificate is found in the configured PEM text and the
  configured address parses as a Redis URL, the stream writer is built with a TLS
  configuration whose root pool holds the certificates found, and its address, network,
  credentials and database are those parsed out of the URL. When the text is empty or
  holds no certificate, the stream writer is built without TLS, and its address is the
  configured string as it stands, unparsed (\<^verbatim>\<open>localhost:6379\<close> when the string is
  empty). The two are in general not the same address.
\<close>

theorem tls_connection_selection:
  "(TlsCert (env g) \<noteq> [] \<and> certsFromPEM L (TlsCert (env g)) \<noteq> [] \<longrightarrow>
      (\<forall>opt. ParseURL L (RedisAddress (env g)) = Inr opt \<longrightarrow>
         writer_options (setUpRedis L g) =
           Some \<lparr>Network = (if Network opt \<noteq> [] then Network opt
                               else if take 1 (Addr opt) = ''/'' then ''unix'' else ''tcp''),
                  Addr = (if Addr opt = [] then ''localhost:6379'' else Addr opt),
                  Username = Username opt, Password = Password opt, DB = DB opt,
                  TLSConfig = Some \<lparr>RootCAs = certsFromPEM L (TlsCert (env g)),
                                         ServerName = []\<rparr>\<rparr>)) \<and>
   (TlsCert (env g) = [] \<or> certsFromPEM L (TlsCert (env g)) = [] \<longrightarrow>
      writer_options (setUpRedis L g) =
        Some \<lparr>Network = (if take 1 (RedisAddress (env g)) = ''/'' then ''unix'' else ''tcp''),
               Addr = (if RedisAddress (env g) = [] then ''localhost:6379''
                       else RedisAddress (env g)),
               Username = [], Password = [], DB = 0, TLSConfig = None\<rparr>)"
proof (intro conjI impI allI)
  fix opt
  assume c: "TlsCert (env g) \<noteq> [] \<and> certsFromPEM L (TlsCert (env g)) \<noteq> []"
    and p: "ParseURL L (RedisAddress (env g)) = Inr opt"
  show "writer_options (setUpRedis L g) =
           Some \<lparr>Network = (if Network opt \<noteq> [] then Network opt
                               else if take 1 (Addr opt) = ''/'' then ''unix'' else ''tcp''),
                  Addr = (if Addr opt = [] then ''localhost:6379'' else Addr opt),
                  Username = Username opt, Password = Password opt, DB = DB opt,
                  TLSConfig = Some \<lparr>RootCAs = certsFromPEM L (TlsCert (env g)),
                                         ServerName = []\<rparr>\<rparr>"
    using c p
    by (cases opt)
       (simp add: writer_options_def setUpRedis_def AppendCertsFromPEM_def NewClient_def
          Options_init_def Let_def)
next
  assume "TlsCert (env g) = [] \<or> certsFromPEM L (TlsCert (env g)) = []"
  then show "writer_options (setUpRedis L g) =
        Some \<lparr>Network = (if take 1 (RedisAddress (env g)) = ''/'' then ''unix'' else ''tcp''),
               Addr = (if RedisAddress (env g) = [] then ''localhost:6379''
                       else RedisAddress (env g)),
               Username = [], Password = [], DB = 0, TLSConfig = None\<rparr>"
    by (auto simp: writer_options_def setUpRedis_def AppendCertsFromPEM_def NewClient_def
        Options_init_def Let_def)
qed

theorem tls_connection_selection_witness:
  "TlsCert (env (configured ''redis://localhost:6379'' example_pem)) \<noteq> [] \<and>
   certsFromPEM example_library (TlsCert (env (configured ''redis://localhost:6379'' example_pem))) \<noteq> [] \<and>
   ParseURL example_library (RedisAddress (env (configured ''redis://localhost:6379'' example_pem))) =
     Inr \<lparr>Network = ''tcp'', Addr = ''localhost:6379'', Username = [], Password = [], DB = 0,
          TLSConfig = None\<rparr> \<and>
   writer_options (setUpRedis example_library (configured ''redis://localhost:6379'' example_pem)) =
     Some \<lparr>Network = ''tcp'', Addr = ''localhost:6379'', Username = [], Password = [], DB = 0,
            TLSConfig = Some \<lparr>RootCAs = [example_der], ServerName = []\<rparr>\<rparr> \<and>
   TlsCert (env (configured ''localhost:6379'' [])) = [] \<and>
   writer_options (setUpRedis example_library (configured ''localhost:6379'' [])) =
     Some \<lparr>Network = ''tcp'', Addr = ''localhost:6379'', Username = [], Password = [], DB = 0,
            TLSConfig = None\<rparr> \<and>
   TlsCert (env (configured [] [])) = [] \<and>
   writer_options (setUpRedis example_library (configured [] [])) =
     Some \<lparr>Network = ''tcp'', Addr = ''localhost:6379'', Username = [], Password = [], DB = 0,
            TLSConfig = None\<rparr>"
proof -
  have c: "TlsCert (env (configured a c)) = c" "RedisAddress (env (configured a c)) = a" for a c
    by (simp_all add: configured_def)
  have p: "example_pem \<noteq> []" "certsFromPEM example_library example_pem = [example_der]"
    by (simp_all add: example_pem_def example_library_def)
  have u: "ParseURL example_library ''redis://localhost:6379'' =
      Inr \<lparr>Network = ''tcp'', Addr = ''localhost:6379'', Username = [], Password = [], DB = 0,
           TLSConfig = None\<rparr>"
    by (simp add: example_library_def)
  show ?thesis
    using tls_connection_selection [of "configured ''redis://localhost:6379'' example_pem" example_library]
      tls_connection_selection [of "configured ''localhost:6379'' []" example_library]
      tls_connection_selection [of "configured [] []" example_library]
      c p u
    by simp
qed

text \<open>
  C3 as stated fails in its last part: for the one configured address
  \<^verbatim>\<open>redis://localhost:6379\<close>, the writer built with the certificate connects to
  \<^verbatim>\<open>localhost:6379\<close>, and the writer built without a certificate is given the address
  \<^verbatim>\<open>redis://localhost:6379\<close>.
\<close>

theorem different_address_counterexample:
  "writer_options (setUpRedis example_library (configured ''redis://localhost:6379'' example_pem)) =
     Some \<lparr>Network = ''tcp'', Addr = ''localhost:6379'', Username = [], Password = [], DB = 0,
            TLSConfig = Some \<lparr>RootCAs = [example_der], ServerName = []\<rparr>\<rparr> \<and>
   writer_options (setUpRedis example_library (configured ''redis://localhost:6379'' [])) =
     Some \<lparr>Network = ''tcp'', Addr = ''redis://localhost:6379'', Username = [], Password = [],
            DB = 0, TLSConfig = None\<rparr> \<and>
   ''localhost:6379'' \<noteq> ''redis://localhost:6379''"
proof -
  have p: "example_pem \<noteq> []"
    by (simp add: example_pem_def)
  show ?thesis
    using p
    by (simp add: writer_options_def setUpRedis_def AppendCertsFromPEM_def configured_def
        example_library_def NewClient_def Options_init_def Let_def)
qed

text \<open>
  C4. When the append fails, the response is 500 with an empty body and the line logged
  holds the identifier of the request, as \<^verbatim>\<open>%q\<close> prints it (in quotes, verbatim for
  a plain identifier); when the append succeeds, the response is 202 with an empty body.
\<close>

theorem broker_failure_propagation:
  assumes "int (length (pending (Body r))) \<le> max 0 (sint (RequestSizeLimit (env g)))"
    and "fault (Body r) = None"
    and "status w = None" and "written w = []"
  shows
    "(\<forall>e. answer U g r = Some e \<longrightarrow>
        status (fst (handleRequest U g w r)) = Some StatusInternalServerError \<and>
        written (fst (handleRequest U g w r)) = [] \<and>
        logs (snd (handleRequest U g w r)) =
          logs g @ [''Error asynchronous writing request to storage  failed to publish '' @
                    Quote (ID (envelope U g r)) @ '': '' @ e @ [CHR 0x0A]] \<and>
        (plain (ID (envelope U g r)) \<longrightarrow>
           Quote (ID (envelope U g r)) = [CHR 0x22] @ ID (envelope U g r) @ [CHR 0x22])) \<and>
     (answer U g r = None \<longrightarrow>
        status (fst (handleRequest U g w r)) = Some StatusAccepted \<and>
        written (fst (handleRequest U g w r)) = [])"
  using assms(3,4)
  by (auto simp: handleRequest_read [OF assms(1,2)] WriteHeader_def Println_def envelope_def
      buildRequestData_def Quote_plain)

theorem broker_failure_propagation_witness:
  "int (length (pending (Body (example_request [] ''abc'')))) \<le>
     max 0 (sint (RequestSizeLimit (env (example_world (Some ''connection refused''))))) \<and>
   fault (Body (example_request [] ''abc'')) = None \<and>
   status newResponse = None \<and> written newResponse = [] \<and>
   answer example_NewFromTime (example_world (Some ''connection refused''))
     (example_request [] ''abc'') = Some ''connection refused'' \<and>
   status (fst (handleRequest example_NewFromTime (example_world (Some ''connection refused''))
                  newResponse (example_request [] ''abc''))) = Some StatusInternalServerError \<and>
   written (fst (handleRequest example_NewFromTime (example_world (Some ''connection refused''))
                   newResponse (example_request [] ''abc''))) = [] \<and>
   logs (snd (handleRequest example_NewFromTime (example_world (Some ''connection refused''))
                newResponse (example_request [] ''abc''))) =
     [''Error asynchronous writing request to storage  failed to publish '' @ [CHR 0x22] @
      ''1eb0a3d2-7c1e-6f00-8000-0242ac110002'' @ [CHR 0x22] @ '': connection refused'' @
      [CHR 0x0A]] \<and>
   answer example_NewFromTime (example_world None) (example_request [] ''abc'') = None \<and>
   status (fst (handleRequest example_NewFromTime (example_world None)
                  newResponse (example_request [] ''abc''))) = Some StatusAccepted \<and>
   written (fst (handleRequest example_NewFromTime (example_world None)
                   newResponse (example_request [] ''abc''))) = []"
proof -
  have h1: "int (length (pending (Body (example_request [] ''abc'')))) \<le>
     max 0 (sint (RequestSizeLimit (env (example_world a))))" for a
    by (simp add: example_request_def example_world_def example_env_def)
  have h2: "fault (Body (example_request [] ''abc'')) = None"
    by (simp add: example_request_def)
  have h3: "status newResponse = None" "written newResponse = []"
    by (simp_all add: newResponse_def)
  have a: "answer example_NewFromTime (example_world a) (example_request [] ''abc'') = a" for a
    by (simp add: answer_def example_world_def)
  have i: "ID (envelope example_NewFromTime (example_world a) (example_request [] ''abc'')) =
      ''1eb0a3d2-7c1e-6f00-8000-0242ac110002''" for a
    by (simp add: envelope_def buildRequestData_def example_NewFromTime_def)
  have p: "plain ''1eb0a3d2-7c1e-6f00-8000-0242ac110002''"
    by (simp add: plain_def)
  have l: "logs (example_world a) = []" for a by (simp add: example_world_def)
  show ?thesis
    using broker_failure_propagation [OF h1 [of "Some ''connection refused''"] h2 h3, of example_NewFromTime]
      broker_failure_propagation [OF h1 [of None] h2 h3, of example_NewFromTime]
      h1 h2 h3 a i p l
    by simp
qed

text \<open>
  C5 is about the identifiers of the package \<^verbatim>\<open>gouuidv6\<close>, whose code the source
  only calls (\<open>NewFromTime\<close> above is a parameter): it has no theorem here.
\<close>

text \<open>
  C6. For a request with the header \<^verbatim>\<open>Async-Original-Host: example.com\<close> and the
  path and query \<^verbatim>\<open>/v1/foo?x=1\<close>, the url of the envelope is
  \<^verbatim>\<open>http://example.com/v1/foo?x=1\<close>; it is this envelope that the handler serialises
  and appends when the body is read in full.
\<close>

theorem url_reconstruction:
  assumes "fmlookup (Header r) ''Async-Original-Host'' = Some (''example.com'' # vs)"
    and "URL_String r = ''/v1/foo?x=1''"
  shows "ReqURL (envelope U g r) = ''http://example.com/v1/foo?x=1'' \<and>
         (int (length (pending (Body r))) \<le> max 0 (sint (RequestSizeLimit (env g))) \<and>
          fault (Body r) = None \<longrightarrow>
            xadds (snd (handleRequest U g w r)) =
              xadds g @ [\<lparr>Stream = StreamName (env g),
                          Values = [(''data'', fst (json_Marshal (envelope U g r)))]\<rparr>])"
proof (intro conjI impI)
  show "ReqURL (envelope U g r) = ''http://example.com/v1/foo?x=1''"
    using assms
    by (simp add: envelope_def buildRequestData_def Header_Get_def canonical_original_host)
next
  assume a: "int (length (pending (Body r))) \<le> max 0 (sint (RequestSizeLimit (env g))) \<and>
             fault (Body r) = None"
  then have fits: "int (length (pending (Body r))) \<le> max 0 (sint (RequestSizeLimit (env g)))"
    and nf: "fault (Body r) = None" by simp_all
  show "xadds (snd (handleRequest U g w r)) =
          xadds g @ [\<lparr>Stream = StreamName (env g),
                      Values = [(''data'', fst (json_Marshal (envelope U g r)))]\<rparr>]"
    by (simp add: handleRequest_read [OF fits nf] Println_def entry_def split: option.splits)
qed

theorem url_reconstruction_witness:
  "fmlookup (Header (example_request [(''Async-Original-Host'', [''example.com''])] ''abc''))
     ''Async-Original-Host'' = Some (''example.com'' # []) \<and>
   URL_String (example_request [(''Async-Original-Host'', [''example.com''])] ''abc'') =
     ''/v1/foo?x=1'' \<and>
   ReqURL (envelope example_NewFromTime (example_world None)
             (example_request [(''Async-Original-Host'', [''example.com''])] ''abc'')) =
     ''http://example.com/v1/foo?x=1'' \<and>
   int (length (pending (Body (example_request [(''Async-Original-Host'', [''example.com''])] ''abc'')))) \<le>
     max 0 (sint (RequestSizeLimit (env (example_world None)))) \<and>
   fault (Body (example_request [(''Async-Original-Host'', [''example.com''])] ''abc'')) = None \<and>
   xadds (snd (handleRequest example_NewFromTime (example_world None) newResponse
                 (example_request [(''Async-Original-Host'', [''example.com''])] ''abc''))) =
     [\<lparr>Stream = ''requests'',
       Values = [(''data'', fst (json_Marshal
         (envelope example_NewFromTime (example_world None)
            (example_request [(''Async-Original-Host'', [''example.com''])] ''abc''))))]\<rparr>]"
proof -
  let ?r = "example_request [(''Async-Original-Host'', [''example.com''])] ''abc''"
  have h1: "fmlookup (Header ?r) ''Async-Original-Host'' = Some (''example.com'' # [])"
    by (simp add: example_request_def)
  have h2: "URL_String ?r = ''/v1/foo?x=1''"
    by (simp add: example_request_def)
  have h3: "int (length (pending (Body ?r))) \<le>
     max 0 (sint (RequestSizeLimit (env (example_world None))))"
    by (simp add: example_request_def example_world_def example_env_def)
  have h4: "fault (Body ?r) = None"
    by (simp add: example_request_def)
  have x: "xadds (example_world None) = []" "StreamName (env (example_world None)) = ''requests''"
    by (simp_all add: example_world_def example_env_def)
  show ?thesis
    using url_reconstruction [OF h1 h2, of example_NewFromTime "example_world None" newResponse]
      h1 h2 h3 h4 x
    by simp
qed

text \<open>
  C7, as amended. Startup is fatal for an unparseable broker address when a certificate is
  found in the configuration: \<^verbatim>\<open>main\<close> exits and serves no request. When none is found
  (the text is empty or holds no certificate), the address is not parsed and no address
  is fatal: \<^verbatim>\<open>main\<close> goes on to serve requests, with a client without TLS made from
  the configured string.
\<close>

theorem startup_fatal:
  "(TlsCert e \<noteq> [] \<and> certsFromPEM L (TlsCert e) \<noteq> [] \<longrightarrow>
      (\<forall>m. ParseURL L (RedisAddress e) = Inl m \<longrightarrow> main L (Inr e) g = Inl m)) \<and>
   (TlsCert e = [] \<or> certsFromPEM L (TlsCert e) = [] \<longrightarrow>
      main L (Inr e) g =
        Inr (g\<lparr>env := e,
               rc := \<lparr>client = NewClient
                        \<lparr>Network = [], Addr = RedisAddress e, Username = [], Password = [],
                         DB = 0, TLSConfig = None\<rparr>\<rparr>,
               logs := logs g @ [''didnt find a cert'' @ [CHR 0x0A]]\<rparr>) \<and>
      map_option TLSConfig (writer_options (main L (Inr e) g)) = Some None)"
  by (auto simp: main_def setUpRedis_def AppendCertsFromPEM_def NewClient_def Options_init_def
      writer_options_def Println_def Let_def)

theorem startup_fatal_witness:
  "TlsCert (env (configured ''localhost:6379'' example_pem)) \<noteq> [] \<and>
   certsFromPEM example_library (TlsCert (env (configured ''localhost:6379'' example_pem))) \<noteq> [] \<and>
   ParseURL example_library (RedisAddress (env (configured ''localhost:6379'' example_pem))) =
     Inl ''redis: invalid URL scheme: localhost'' \<and>
   main example_library (Inr (env (configured ''localhost:6379'' example_pem))) (example_world None) =
     Inl ''redis: invalid URL scheme: localhost'' \<and>
   TlsCert (env (configured ''localhost:6379'' [])) = [] \<and>
   map_option TLSConfig
     (writer_options (main example_library (Inr (env (configured ''localhost:6379'' [])))
        (example_world None))) = Some None"
proof -
  have c: "TlsCert (env (configured a c)) = c" "RedisAddress (env (configured a c)) = a" for a c
    by (simp_all add: configured_def)
  have p: "example_pem \<noteq> []" "certsFromPEM example_library example_pem = [example_der]"
    by (simp_all add: example_pem_def example_library_def)
  have u: "ParseURL example_library ''localhost:6379'' = Inl ''redis: invalid URL scheme: localhost''"
    by (simp add: example_library_def)
  show ?thesis
    using startup_fatal [of "env (configured ''localhost:6379'' example_pem)" example_library "example_world None"]
      startup_fatal [of "env (configured ''localhost:6379'' [])" example_library "example_world None"]
      c p u
    by (simp add: writer_options_def NewClient_def Options_init_def)
qed

text \<open>
  C7 as stated fails: with no certificate configured and an address that
  \<^verbatim>\<open>ParseURL\<close> rejects, \<^verbatim>\<open>main\<close> does not exit; it reaches the server.
\<close>

theorem serving_with_bad_address_counterexample:
  "ParseURL example_library (RedisAddress (env (configured ''localhost:6379'' []))) =
     Inl ''redis: invalid URL scheme: localhost'' \<and>
   main example_library (Inr (env (configured ''localhost:6379'' []))) (example_world None) =
     Inr ((example_world None)
          \<lparr>env := env (configured ''localhost:6379'' []),
            rc := \<lparr>client = \<lparr>options =
                    \<lparr>Network = ''tcp'', Addr = ''localhost:6379'', Username = [], Password = [],
                     DB = 0, TLSConfig = None\<rparr>\<rparr>\<rparr>,
            logs := [''didnt find a cert'' @ [CHR 0x0A]]\<rparr>)"
  by (simp add: main_def setUpRedis_def AppendCertsFromPEM_def configured_def example_library_def
      example_world_def example_env_def NewClient_def Options_init_def Println_def Let_def)

text \<open>
  C8. For a request that is read in full, the entry appended to the stream has the one
  field \<^verbatim>\<open>data\<close>, holding the serialised envelope of the request: the identifier, the
  url, the body read, the header and the method. The identifier is inside that text: for
  an identifier of plain characters (a UUID) the text starts with the member
  \<^verbatim>\<open>"id"\<close> and the identifier between quotes, and for an envelope of valid UTF-8 the
  reader of the stream decodes the identifier from it. In \<^verbatim>\<open>write\<close>, the identifier
  argument appears in the message of the error returned on failure and nowhere else: the
  entry sent, the state after, and whether the call succeeds are the same for any two
  identifiers.
\<close>

theorem append_payload:
  assumes "int (length (pending (Body r))) \<le> max 0 (sint (RequestSizeLimit (env g)))"
    and "fault (Body r) = None"
  shows
    "xadds (snd (handleRequest U g w r)) =
       xadds g @ [\<lparr>Stream = StreamName (env g),
                   Values = [(''data'', fst (json_Marshal (envelope U g r)))]\<rparr>] \<and>
     envelope U g r =
       \<lparr>ID = U (now g),
        ReqURL = ''http://'' @ Header_Get (Header r) ''Async-Original-Host'' @ URL_String r,
        ReqBody = pending (Body r), ReqHeader = Header r, ReqMethod = Method r\<rparr> \<and>
     (json_plain (U (now g)) \<longrightarrow>
        (\<exists>rest. fst (json_Marshal (envelope U g r)) =
           CHR ''{'' # CHR 0x22 # ''id'' @ CHR 0x22 # CHR '':'' # CHR 0x22 # U (now g) @
           CHR 0x22 # CHR '','' # rest)) \<and>
     (valid_requestData (envelope U g r) \<longrightarrow>
        map_option ID (json_Unmarshal (fst (json_Marshal (envelope U g r)))) =
          Some (U (now g))) \<and>
     (\<exists>rest. fst (json_Marshal (envelope U g r)) =
        ''{'' @ encode_string ''id'' @ '':'' @ encode_string (U (now g)) @ rest) \<and>
     xadds (snd (myRedis_write mr s j i g)) =
       xadds g @ [\<lparr>Stream = StreamName s, Values = [(''data'', j)]\<rparr>] \<and>
     snd (myRedis_write mr s j i g) = snd (myRedis_write mr s j i' g) \<and>
     (fst (myRedis_write mr s j i g) = None) = (fst (myRedis_write mr s j i' g) = None) \<and>
     fst (myRedis_write mr s j i g) =
       map_option (\<lambda>e. errorString (''failed to publish '' @ Quote i @ '': '' @ e))
         (server g (options (client mr)) \<lparr>Stream = StreamName s, Values = [(''data'', j)]\<rparr>)"
proof (intro conjI impI)
  show "xadds (snd (handleRequest U g w r)) =
       xadds g @ [\<lparr>Stream = StreamName (env g),
                   Values = [(''data'', fst (json_Marshal (envelope U g r)))]\<rparr>]"
    by (simp add: handleRequest_read [OF assms] Println_def entry_def split: option.splits)
  show "envelope U g r =
       \<lparr>ID = U (now g),
        ReqURL = ''http://'' @ Header_Get (Header r) ''Async-Original-Host'' @ URL_String r,
        ReqBody = pending (Body r), ReqHeader = Header r, ReqMethod = Method r\<rparr>"
    by (simp add: envelope_def buildRequestData_def)
  show "\<exists>rest. fst (json_Marshal (envelope U g r)) =
        ''{'' @ encode_string ''id'' @ '':'' @ encode_string (U (now g)) @ rest"
    by (simp add: json_Marshal_def envelope_def buildRequestData_def)
next
  assume "json_plain (U (now g))"
  then have "encode_string (U (now g)) = CHR 0x22 # U (now g) @ [CHR 0x22]"
    by (simp add: encode_string_def encode_runes_json_plain)
  then show "\<exists>rest. fst (json_Marshal (envelope U g r)) =
           CHR ''{'' # CHR 0x22 # ''id'' @ CHR 0x22 # CHR '':'' # CHR 0x22 # U (now g) @
           CHR 0x22 # CHR '','' # rest"
    by (simp add: json_Marshal_def envelope_def buildRequestData_def encode_string_id)
next
  assume "valid_requestData (envelope U g r)"
  from json_roundtrip [OF this]
  show "map_option ID (json_Unmarshal (fst (json_Marshal (envelope U g r)))) = Some (U (now g))"
    by (simp add: envelope_def buildRequestData_def)
qed (simp_all add: myRedis_write_eq)

theorem append_payload_witness:
  "int (length (pending (Body (example_request [] ''abc'')))) \<le>
     max 0 (sint (RequestSizeLimit (env (example_world None)))) \<and>
   fault (Body (example_request [] ''abc'')) = None \<and>
   example_NewFromTime (now (example_world None)) = ''1eb0a3d2-7c1e-6f00-8000-0242ac110002'' \<and>
   json_plain (example_NewFromTime (now (example_world None))) \<and>
   valid_requestData
     (envelope example_NewFromTime (example_world None) (example_request [] ''abc'')) \<and>
   xadds (snd (handleRequest example_NewFromTime (example_world None) newResponse
                 (example_request [] ''abc''))) =
     xadds (example_world None) @
       [\<lparr>Stream = StreamName (env (example_world None)),
         Values = [(''data'', fst (json_Marshal
           (envelope example_NewFromTime (example_world None)
              (example_request [] ''abc''))))]\<rparr>] \<and>
   envelope example_NewFromTime (example_world None) (example_request [] ''abc'') =
     \<lparr>ID = ''1eb0a3d2-7c1e-6f00-8000-0242ac110002'', ReqURL = ''http:///v1/foo?x=1'',
      ReqBody = ''abc'', ReqHeader = fmempty, ReqMethod = ''POST''\<rparr> \<and>
   (\<exists>rest. fst (json_Marshal
        (envelope example_NewFromTime (example_world None) (example_request [] ''abc''))) =
      CHR ''{'' # CHR 0x22 # ''id'' @ CHR 0x22 # CHR '':'' # CHR 0x22 #
      example_NewFromTime (now (example_world None)) @ CHR 0x22 # CHR '','' # rest) \<and>
   map_option ID (json_Unmarshal (fst (json_Marshal
        (envelope example_NewFromTime (example_world None) (example_request [] ''abc''))))) =
     Some (example_NewFromTime (now (example_world None)))"
proof -
  let ?r = "example_request [] ''abc''"
  let ?g = "example_world None"
  have h1: "int (length (pending (Body ?r))) \<le> max 0 (sint (RequestSizeLimit (env ?g)))"
    by (simp add: example_request_def example_world_def example_env_def)
  have h2: "fault (Body ?r) = None"
    by (simp add: example_request_def)
  have x: "example_NewFromTime (now ?g) = ''1eb0a3d2-7c1e-6f00-8000-0242ac110002''"
    by (simp add: example_NewFromTime_def)
  have jp: "json_plain (example_NewFromTime (now ?g))"
    by (simp add: x json_plain_def)
  have e: "envelope example_NewFromTime ?g ?r =
     \<lparr>ID = ''1eb0a3d2-7c1e-6f00-8000-0242ac110002'', ReqURL = ''http:///v1/foo?x=1'',
      ReqBody = ''abc'', ReqHeader = fmempty, ReqMethod = ''POST''\<rparr>"
    by (simp add: envelope_def buildRequestData_def x example_request_def Header_Get_def)
  have v: "valid_requestData (envelope example_NewFromTime ?g ?r)"
    unfolding e by (simp add: valid_requestData_def RuneSelf_def)
  note t = append_payload [OF h1 h2, where U = example_NewFromTime and w = newResponse
      and mr = "rc ?g" and s = example_env and j = "[]" and i = "[]" and i' = "[]"]
  from t have c1: "xadds (snd (handleRequest example_NewFromTime ?g newResponse ?r)) =
     xadds ?g @ [\<lparr>Stream = StreamName (env ?g),
         Values = [(''data'', fst (json_Marshal (envelope example_NewFromTime ?g ?r)))]\<rparr>]"
    by (rule conjunct1)
  from t jp have c3: "\<exists>rest. fst (json_Marshal (envelope example_NewFromTime ?g ?r)) =
      CHR ''{'' # CHR 0x22 # ''id'' @ CHR 0x22 # CHR '':'' # CHR 0x22 #
      example_NewFromTime (now ?g) @ CHR 0x22 # CHR '','' # rest"
    by blast
  from t v have c4: "map_option ID (json_Unmarshal (fst (json_Marshal
        (envelope example_NewFromTime ?g ?r)))) = Some (example_NewFromTime (now ?g))"
    by blast
  show ?thesis
    by (intro conjI) (fact h1 h2 x jp v c1 e c3 c4)+
qed

text \<open>
  C9. When the header \<^verbatim>\<open>Async-Original-Host\<close> is absent, has no value or has an
  empty first value, the url of the envelope is \<^verbatim>\<open>http://\<close> followed directly by the
  path and query, and the request goes on to the append: the response is 202 when the
  broker accepts the entry.
\<close>

theorem missing_original_host:
  assumes "fmlookup (Header r) ''Async-Original-Host'' = None \<or>
           fmlookup (Header r) ''Async-Original-Host'' = Some [] \<or>
           (\<exists>vs. fmlookup (Header r) ''Async-Original-Host'' = Some ([] # vs))"
    and "int (length (pending (Body r))) \<le> max 0 (sint (RequestSizeLimit (env g)))"
    and "fault (Body r) = None"
    and "status w = None"
  shows "ReqURL (envelope U g r) = ''http://'' @ URL_String r \<and>
         xadds (snd (handleRequest U g w r)) = xadds g @ [entry U g r] \<and>
         status (fst (handleRequest U g w r)) =
           Some (if answer U g r = None then StatusAccepted else StatusInternalServerError)"
proof (intro conjI)
  show "ReqURL (envelope U g r) = ''http://'' @ URL_String r"
    using assms(1)
    by (auto simp: envelope_def buildRequestData_def Header_Get_def canonical_original_host)
  show "xadds (snd (handleRequest U g w r)) = xadds g @ [entry U g r]"
    by (simp add: handleRequest_read [OF assms(2,3)] Println_def split: option.splits)
  show "status (fst (handleRequest U g w r)) =
          Some (if answer U g r = None then StatusAccepted else StatusInternalServerError)"
    using assms(4)
    by (simp add: handleRequest_read [OF assms(2,3)] WriteHeader_def split: option.splits)
qed

theorem missing_original_host_witness:
  "fmlookup (Header (example_request [] ''abc'')) ''Async-Original-Host'' = None \<and>
   int (length (pending (Body (example_request [] ''abc'')))) \<le>
     max 0 (sint (RequestSizeLimit (env (example_world None)))) \<and>
   fault (Body (example_request [] ''abc'')) = None \<and>
   status newResponse = None \<and>
   ReqURL (envelope example_NewFromTime (example_world None) (example_request [] ''abc'')) =
     ''http:///v1/foo?x=1'' \<and>
   xadds (snd (handleRequest example_NewFromTime (example_world None) newResponse
                 (example_request [] ''abc''))) =
     xadds (example_world None) @
       [entry example_NewFromTime (example_world None) (example_request [] ''abc'')] \<and>
   status (fst (handleRequest example_NewFromTime (example_world None) newResponse
                  (example_request [] ''abc''))) = Some StatusAccepted"
proof -
  have h1: "fmlookup (Header (example_request [] ''abc'')) ''Async-Original-Host'' = None"
    by (simp add: example_request_def)
  have h2: "int (length (pending (Body (example_request [] ''abc'')))) \<le>
     max 0 (sint (RequestSizeLimit (env (example_world None))))"
    by (simp add: example_request_def example_world_def example_env_def)
  have h3: "fault (Body (example_request [] ''abc'')) = None"
    by (simp add: example_request_def)
  have h4: "status newResponse = None" by (simp add: newResponse_def)
  have a: "answer example_NewFromTime (example_world None) (example_request [] ''abc'') = None"
    by (simp add: answer_def example_world_def)
  have u: "URL_String (example_request [] ''abc'') = ''/v1/foo?x=1''"
    by (simp add: example_request_def)
  show ?thesis
    using missing_original_host [OF disjI1 [OF h1] h2 h3 h4, of example_NewFromTime]
      h1 h2 h3 h4 a u
    by simp
qed

text \<open>
  C10. With a request size limit of zero, every request with a non-empty body is
  answered with 500 and nothing is sent to the broker; a request with an empty body is
  appended, and answered with 202 when the broker accepts the entry.
\<close>

theorem zero_limit:
  assumes "RequestSizeLimit (env g) = 0" and "status w = None"
  shows
    "(pending (Body r) \<noteq> [] \<longrightarrow>
        status (fst (handleRequest U g w r)) = Some StatusInternalServerError \<and>
        xadds (snd (handleRequest U g w r)) = xadds g) \<and>
     (pending (Body r) = [] \<and> fault (Body r) = None \<longrightarrow>
        xadds (snd (handleRequest U g w r)) = xadds g @ [entry U g r] \<and>
        status (fst (handleRequest U g w r)) =
          Some (if answer U g r = None then StatusAccepted else StatusInternalServerError))"
proof (intro conjI impI)
  assume "pending (Body r) \<noteq> []"
  with assms have big: "max 0 (sint (RequestSizeLimit (env g))) < int (length (pending (Body r)))"
    by simp
  show "status (fst (handleRequest U g w r)) = Some StatusInternalServerError"
    using assms(2) by (simp add: handleRequest_oversized [OF big] WriteHeader_def requestTooLarge_def)
  show "xadds (snd (handleRequest U g w r)) = xadds g"
    by (simp add: handleRequest_oversized [OF big] Println_def)
next
  assume a: "pending (Body r) = [] \<and> fault (Body r) = None"
  with assms have fits: "int (length (pending (Body r))) \<le> max 0 (sint (RequestSizeLimit (env g)))"
    by simp
  from a have nf: "fault (Body r) = None" by simp
  show "xadds (snd (handleRequest U g w r)) = xadds g @ [entry U g r]"
    by (simp add: handleRequest_read [OF fits nf] Println_def split: option.splits)
  show "status (fst (handleRequest U g w r)) =
          Some (if answer U g r = None then StatusAccepted else StatusInternalServerError)"
    using assms(2)
    by (simp add: handleRequest_read [OF fits nf] WriteHeader_def split: option.splits)
qed

theorem zero_limit_witness:
  "RequestSizeLimit (env ((example_world None)\<lparr>env := example_env\<lparr>RequestSizeLimit := 0\<rparr>\<rparr>)) = 0 \<and>
   status newResponse = None \<and>
   pending (Body (example_request [] ''a'')) \<noteq> [] \<and>
   status (fst (handleRequest example_NewFromTime
                  ((example_world None)\<lparr>env := example_env\<lparr>RequestSizeLimit := 0\<rparr>\<rparr>)
                  newResponse (example_request [] ''a''))) = Some StatusInternalServerError \<and>
   xadds (snd (handleRequest example_NewFromTime
                 ((example_world None)\<lparr>env := example_env\<lparr>RequestSizeLimit := 0\<rparr>\<rparr>)
                 newResponse (example_request [] ''a''))) = [] \<and>
   pending (Body (example_request [] [])) = [] \<and>
   fault (Body (example_request [] [])) = None \<and>
   xadds (snd (handleRequest example_NewFromTime
                 ((example_world None)\<lparr>env := example_env\<lparr>RequestSizeLimit := 0\<rparr>\<rparr>)
                 newResponse (example_request [] []))) =
     [entry example_NewFromTime
        ((example_world None)\<lparr>env := example_env\<lparr>RequestSizeLimit := 0\<rparr>\<rparr>)
        (example_request [] [])] \<and>
   status (fst (handleRequest example_NewFromTime
                  ((example_world None)\<lparr>env := example_env\<lparr>RequestSizeLimit := 0\<rparr>\<rparr>)
                  newResponse (example_request [] []))) = Some StatusAccepted"
proof -
  let ?g = "(example_world None)\<lparr>env := example_env\<lparr>RequestSizeLimit := 0\<rparr>\<rparr>"
  have h1: "RequestSizeLimit (env ?g) = 0" by simp
  have h2: "status newResponse = None" by (simp add: newResponse_def)
  have a: "answer example_NewFromTime ?g (example_request [] []) = None"
    by (simp add: answer_def example_world_def)
  have x: "xadds ?g = []" by (simp add: example_world_def)
  have b: "pending (Body (example_request [] ''a'')) \<noteq> []"
    "pending (Body (example_request [] [])) = []" "fault (Body (example_request [] [])) = None"
    by (simp_all add: example_request_def)
  show ?thesis
    using zero_limit [OF h1 h2, of "example_request [] ''a''" example_NewFromTime]
      zero_limit [OF h1 h2, of "example_request [] []" example_NewFromTime]
      h2 a x b
    by simp
qed

end
